theory Spec2Isabelle
  imports Complex_Main
begin

section \<open>Tensors and the library operators used by \<^verbatim>\<open>real_esrgan/layers/blocks.py\<close>\<close>

text \<open>
  The blocks of \<^verbatim>\<open>blocks.py\<close> are written against PyTorch.  A 4-D tensor
  \<open>(N, C, H, W)\<close> is modelled as a nested list: a batch of images, an image a list of
  channel planes, a plane a list of rows.  Tensors are the rectangular nested lists with
  all four dimensions positive.
\<close>

subsection \<open>Elements\<close>

text \<open>
  An element is a floating-point value: a finite number, one of the two infinities, or
  NaN.  Finite values are idealised as exact reals (rounding, overflow to infinity and the
  sign of zero are not modelled); on the infinities and NaN the operations are those of
  IEEE arithmetic, so that \<open>0 * \<infinity>\<close> and \<open>\<infinity> - \<infinity>\<close> are NaN and every comparison with NaN
  is false.
\<close>

datatype elem = Val real | PosInf | NegInf | NaN

instantiation elem :: "{comm_monoid_add, numeral, power, uminus, minus, inverse, ord}"
begin

definition zero_elem :: elem where
  "zero_elem = Val 0"

definition one_elem :: elem where
  "one_elem = Val 1"

fun plus_elem :: "elem \<Rightarrow> elem \<Rightarrow> elem" where
  "plus_elem (Val a) (Val b) = Val (a + b)"
| "plus_elem NaN _ = NaN"
| "plus_elem _ NaN = NaN"
| "plus_elem PosInf NegInf = NaN"
| "plus_elem NegInf PosInf = NaN"
| "plus_elem PosInf _ = PosInf"
| "plus_elem _ PosInf = PosInf"
| "plus_elem NegInf _ = NegInf"
| "plus_elem _ NegInf = NegInf"

fun uminus_elem :: "elem \<Rightarrow> elem" where
  "uminus_elem (Val a) = Val (- a)"
| "uminus_elem PosInf = NegInf"
| "uminus_elem NegInf = PosInf"
| "uminus_elem NaN = NaN"

definition minus_elem :: "elem \<Rightarrow> elem \<Rightarrow> elem" where
  "minus_elem a b = a + (- b)"

text \<open>An infinity of the sign of \<open>a\<close>, or NaN when \<open>a\<close> is zero.\<close>

fun signed_inf :: "real \<Rightarrow> elem \<Rightarrow> elem" where
  "signed_inf a i = (if a = 0 then NaN else if 0 < a then i else - i)"

fun times_elem :: "elem \<Rightarrow> elem \<Rightarrow> elem" where
  "times_elem (Val a) (Val b) = Val (a * b)"
| "times_elem NaN _ = NaN"
| "times_elem _ NaN = NaN"
| "times_elem (Val a) PosInf = signed_inf a PosInf"
| "times_elem (Val a) NegInf = signed_inf a NegInf"
| "times_elem PosInf (Val b) = signed_inf b PosInf"
| "times_elem NegInf (Val b) = signed_inf b NegInf"
| "times_elem PosInf PosInf = PosInf"
| "times_elem PosInf NegInf = NegInf"
| "times_elem NegInf PosInf = NegInf"
| "times_elem NegInf NegInf = PosInf"

fun divide_elem :: "elem \<Rightarrow> elem \<Rightarrow> elem" where
  "divide_elem (Val a) (Val b) = (if b = 0 then signed_inf a PosInf else Val (a / b))"
| "divide_elem NaN _ = NaN"
| "divide_elem _ NaN = NaN"
| "divide_elem (Val a) _ = Val 0"
| "divide_elem PosInf (Val b) = (if 0 \<le> b then PosInf else NegInf)"
| "divide_elem NegInf (Val b) = (if 0 \<le> b then NegInf else PosInf)"
| "divide_elem _ _ = NaN"

definition inverse_elem :: "elem \<Rightarrow> elem" where
  "inverse_elem a = divide (Val 1) a"

fun less_elem :: "elem \<Rightarrow> elem \<Rightarrow> bool" where
  "less_elem (Val a) (Val b) = (a < b)"
| "less_elem NaN _ = False"
| "less_elem _ NaN = False"
| "less_elem _ NegInf = False"
| "less_elem PosInf _ = False"
| "less_elem NegInf _ = True"
| "less_elem _ PosInf = True"

fun less_eq_elem :: "elem \<Rightarrow> elem \<Rightarrow> bool" where
  "less_eq_elem (Val a) (Val b) = (a \<le> b)"
| "less_eq_elem NaN _ = False"
| "less_eq_elem _ NaN = False"
| "less_eq_elem NegInf _ = True"
| "less_eq_elem _ PosInf = True"
| "less_eq_elem _ _ = False"

instance
proof (intro_classes, goal_cases)
  case (1 u v z)
  show ?case by (cases u; cases v; cases z; simp)
next
  case (2 u v)
  show ?case by (cases u; cases v; simp)
next
  case (3 u)
  show ?case unfolding zero_elem_def by (cases u; simp)
qed

end

type_synonym plane = "elem list list"
type_synonym image = "plane list"
type_synonym tensor = "image list"

text \<open>PyTorch reports every shape mismatch of an operator as a \<^verbatim>\<open>RuntimeError\<close>;
  \<open>ShapeError\<close> is the error of the operators that the specification describes.\<close>

datatype error = RuntimeError | ShapeError

definition dimN :: "tensor \<Rightarrow> nat" where
  "dimN t = length t"

definition dimC :: "tensor \<Rightarrow> nat" where
  "dimC t = (case t of [] \<Rightarrow> 0 | img # _ \<Rightarrow> length img)"

definition dimH :: "tensor \<Rightarrow> nat" where
  "dimH t = (case t of [] \<Rightarrow> 0 | img # _ \<Rightarrow> (case img of [] \<Rightarrow> 0 | p # _ \<Rightarrow> length p))"

definition dimW :: "tensor \<Rightarrow> nat" where
  "dimW t = (case t of [] \<Rightarrow> 0 | img # _ \<Rightarrow>
      (case img of [] \<Rightarrow> 0 | p # _ \<Rightarrow> (case p of [] \<Rightarrow> 0 | r # _ \<Rightarrow> length r)))"

definition has_shape :: "nat \<Rightarrow> nat \<Rightarrow> nat \<Rightarrow> nat \<Rightarrow> tensor \<Rightarrow> bool" where
  "has_shape n c h w t =
     (length t = n \<and>
      list_all (\<lambda>img. length img = c \<and>
        list_all (\<lambda>p. length p = h \<and> list_all (\<lambda>r. length r = w) p) img) t)"

definition tensor_wf :: "tensor \<Rightarrow> bool" where
  "tensor_wf t =
     (0 < dimN t \<and> 0 < dimC t \<and> 0 < dimH t \<and> 0 < dimW t \<and>
      has_shape (dimN t) (dimC t) (dimH t) (dimW t) t)"

subsection \<open>Sequencing of fallible operators\<close>

definition sbind :: "error + 'a \<Rightarrow> ('a \<Rightarrow> error + 'b) \<Rightarrow> error + 'b" where
  "sbind m f = (case m of Inl e \<Rightarrow> Inl e | Inr v \<Rightarrow> f v)"

subsection \<open>\<^verbatim>\<open>nn.Conv2d\<close>\<close>

text \<open>
  The module holds its configuration and its parameters: the weight of shape
  \<open>(out_channels, in_channels, k, k)\<close> and one bias per output channel.  The constructor
  of the library draws the initial parameter values at random and a checkpoint replaces
  them later; here the values are an argument of the constructor.
\<close>

record conv2d =
  in_channels :: nat
  out_channels :: nat
  kernel_size :: nat
  stride :: nat
  padding :: nat
  weight :: "elem list list list list"
  bias :: "elem list"

definition Conv2d ::
  "nat \<Rightarrow> nat \<Rightarrow> nat \<Rightarrow> nat \<Rightarrow> nat \<Rightarrow> elem list list list list \<times> elem list \<Rightarrow> conv2d" where
  "Conv2d cin cout k s p wb =
     \<lparr>in_channels = cin, out_channels = cout, kernel_size = k, stride = s, padding = p,
      weight = fst wb, bias = snd wb\<rparr>"

text \<open>The parameters have the shapes the constructor declares.\<close>

definition params_ok :: "nat \<Rightarrow> nat \<Rightarrow> nat \<Rightarrow> elem list list list list \<times> elem list \<Rightarrow> bool" where
  "params_ok cin cout k wb = (has_shape cout cin k k (fst wb) \<and> length (snd wb) = cout)"

text \<open>An input pixel of the zero-padded plane: outside the plane it reads 0.\<close>

definition padded :: "plane \<Rightarrow> nat \<Rightarrow> nat \<Rightarrow> nat \<Rightarrow> elem" where
  "padded p pad iy ix =
     (if pad \<le> iy \<and> iy - pad < length p \<and> pad \<le> ix \<and> ix - pad < length (p ! (iy - pad))
      then p ! (iy - pad) ! (ix - pad) else 0)"

text \<open>One output value: the bias plus the cross-correlation over the kernel window and
  the input channels.\<close>

definition conv_pixel :: "conv2d \<Rightarrow> image \<Rightarrow> nat \<Rightarrow> nat \<Rightarrow> nat \<Rightarrow> elem" where
  "conv_pixel cv img oc y x =
     bias cv ! oc +
     (\<Sum>ic \<leftarrow> [0..<length img]. \<Sum>ky \<leftarrow> [0..<kernel_size cv]. \<Sum>kx \<leftarrow> [0..<kernel_size cv].
        weight cv ! oc ! ic ! ky ! kx *
        padded (img ! ic) (padding cv) (y * stride cv + ky) (x * stride cv + kx))"

definition conv_out :: "conv2d \<Rightarrow> tensor \<Rightarrow> tensor" where
  "conv_out cv t =
     (let ho = (dimH t + 2 * padding cv - kernel_size cv) div stride cv + 1;
          wo = (dimW t + 2 * padding cv - kernel_size cv) div stride cv + 1
      in map (\<lambda>img. map (\<lambda>oc. map (\<lambda>y. map (\<lambda>x. conv_pixel cv img oc y x) [0..<wo]) [0..<ho])
                      [0..<out_channels cv]) t)"

text \<open>The call fails when the channel count of the input is not \<open>in_channels\<close>, when the
  stride is not positive, and when the padded input is smaller than the kernel.\<close>

definition conv2d_forward :: "conv2d \<Rightarrow> tensor \<Rightarrow> error + tensor" where
  "conv2d_forward cv t =
     (if dimC t \<noteq> in_channels cv then Inl RuntimeError
      else if stride cv = 0 then Inl RuntimeError
      else if dimH t + 2 * padding cv < kernel_size cv \<or> dimW t + 2 * padding cv < kernel_size cv
        then Inl RuntimeError
      else Inr (conv_out cv t))"

subsection \<open>\<^verbatim>\<open>torch.cat\<close> along dimension 1\<close>

text \<open>All tensors of the list must agree in every dimension but the channels; the result
  holds, for each batch element, the channel planes of the arguments in list order.\<close>

definition cat_channels :: "tensor list \<Rightarrow> error + tensor" where
  "cat_channels ts =
     (case ts of
        [] \<Rightarrow> Inl RuntimeError
      | t # rest \<Rightarrow>
          if list_all (\<lambda>u. dimN u = dimN t \<and> dimH u = dimH t \<and> dimW u = dimW t) rest
          then Inr (map (\<lambda>n. concat (map (\<lambda>u. u ! n) ts)) [0..<dimN t])
          else Inl RuntimeError)"

subsection \<open>\<^verbatim>\<open>torch.add\<close>, \<^verbatim>\<open>torch.mul\<close> by a scalar, \<^verbatim>\<open>nn.LeakyReLU\<close>\<close>

text \<open>\<^verbatim>\<open>torch.add\<close> broadcasts: two sizes of a dimension are compatible when they
  are equal or one of them is 1, and the operand of size 1 is repeated.\<close>

definition broadcastable :: "nat \<Rightarrow> nat \<Rightarrow> bool" where
  "broadcastable m n = (m = n \<or> m = 1 \<or> n = 1)"

definition expand :: "nat \<Rightarrow> 'a list \<Rightarrow> 'a list" where
  "expand n xs = (case xs of [x] \<Rightarrow> replicate n x | _ \<Rightarrow> xs)"

definition expand_tensor :: "nat \<Rightarrow> nat \<Rightarrow> nat \<Rightarrow> nat \<Rightarrow> tensor \<Rightarrow> tensor" where
  "expand_tensor n c h w t =
     expand n (map (\<lambda>img. expand c (map (\<lambda>p. expand h (map (\<lambda>r. expand w r) p)) img)) t)"

definition add_same :: "tensor \<Rightarrow> tensor \<Rightarrow> tensor" where
  "add_same a b = map2 (map2 (map2 (map2 (+)))) a b"

definition torch_add :: "tensor \<Rightarrow> tensor \<Rightarrow> error + tensor" where
  "torch_add a b =
     (if broadcastable (dimN a) (dimN b) \<and> broadcastable (dimC a) (dimC b) \<and>
         broadcastable (dimH a) (dimH b) \<and> broadcastable (dimW a) (dimW b)
      then (let n = max (dimN a) (dimN b); c = max (dimC a) (dimC b);
                h = max (dimH a) (dimH b); w = max (dimW a) (dimW b)
            in Inr (add_same (expand_tensor n c h w a) (expand_tensor n c h w b)))
      else Inl RuntimeError)"

definition map_tensor :: "(elem \<Rightarrow> elem) \<Rightarrow> tensor \<Rightarrow> tensor" where
  "map_tensor f t = map (map (map (map f))) t"

definition torch_mul :: "tensor \<Rightarrow> elem \<Rightarrow> tensor" where
  "torch_mul t k = map_tensor (\<lambda>v. v * k) t"

definition F_leaky_relu :: "elem \<Rightarrow> tensor \<Rightarrow> tensor" where
  "F_leaky_relu slope t = map_tensor (\<lambda>v. if 0 < v then v else v * slope) t"

section \<open>Buffers: which tensor object a call writes\<close>

text \<open>
  Python passes tensors by reference and \<^verbatim>\<open>nn.LeakyReLU(slope, True)\<close> overwrites
  its argument.  The store lists the tensor objects alive; an address is an index into
  it.  A call of an operator that returns a new tensor appends it; the in-place
  activation overwrites the object it is given and returns the same address.
\<close>

type_synonym addr = nat
type_synonym store = "tensor list"
type_synonym 'a prog = "store \<Rightarrow> (error + 'a) \<times> store"

definition ret :: "'a \<Rightarrow> 'a prog" where
  "ret v s = (Inr v, s)"

definition seq :: "'a prog \<Rightarrow> ('a \<Rightarrow> 'b prog) \<Rightarrow> 'b prog" where
  "seq m f s = (case m s of (Inl e, s') \<Rightarrow> (Inl e, s') | (Inr v, s') \<Rightarrow> f v s')"

definition alloc :: "error + tensor \<Rightarrow> addr prog" where
  "alloc r s = (case r of Inl e \<Rightarrow> (Inl e, s) | Inr t \<Rightarrow> (Inr (length s), s @ [t]))"

definition conv2d_call :: "conv2d \<Rightarrow> addr \<Rightarrow> addr prog" where
  "conv2d_call cv x s = alloc (conv2d_forward cv (s ! x)) s"

definition cat_call :: "addr list \<Rightarrow> addr prog" where
  "cat_call xs s = alloc (cat_channels (map (\<lambda>x. s ! x) xs)) s"

definition add_call :: "addr \<Rightarrow> addr \<Rightarrow> addr prog" where
  "add_call a b s = alloc (torch_add (s ! a) (s ! b)) s"

definition mul_call :: "addr \<Rightarrow> elem \<Rightarrow> addr prog" where
  "mul_call a k s = alloc (Inr (torch_mul (s ! a) k)) s"

record leakyrelu =
  negative_slope :: elem
  inplace :: bool

definition LeakyReLU :: "elem \<Rightarrow> bool \<Rightarrow> leakyrelu" where
  "LeakyReLU slope inpl = \<lparr>negative_slope = slope, inplace = inpl\<rparr>"

definition leaky_relu_call :: "leakyrelu \<Rightarrow> addr \<Rightarrow> addr prog" where
  "leaky_relu_call m x s =
     (if inplace m then (Inr x, s[x := F_leaky_relu (negative_slope m) (s ! x)])
      else alloc (Inr (F_leaky_relu (negative_slope m) (s ! x))) s)"

text \<open>\<^verbatim>\<open>nn.Identity\<close> returns its argument, the same object.\<close>

definition identity_call :: "addr \<Rightarrow> addr prog" where
  "identity_call x = ret x"

text \<open>The tensor a run returns, read from the final store.\<close>

definition value_of :: "(error + addr) \<times> store \<Rightarrow> error + tensor" where
  "value_of r = (case r of (Inl e, s') \<Rightarrow> Inl e | (Inr p, s') \<Rightarrow> Inr (s' ! p))"

section \<open>\<^verbatim>\<open>ResidualDenseBlock\<close>\<close>

type_synonym params = "elem list list list list \<times> elem list"

record residual_dense_block =
  rdb_conv_1 :: conv2d
  rdb_conv_2 :: conv2d
  rdb_conv_3 :: conv2d
  rdb_conv_4 :: conv2d
  rdb_conv_5 :: conv2d
  rdb_leaky_relu :: leakyrelu

text \<open>The constructor; \<open>ws\<close> holds the parameter values of the five convolutions.\<close>

type_synonym rdb_params = "params \<times> params \<times> params \<times> params \<times> params"

definition ResidualDenseBlock :: "nat \<Rightarrow> nat \<Rightarrow> rdb_params \<Rightarrow> residual_dense_block" where
  "ResidualDenseBlock channels growth_channels ws =
     (case ws of (w1, w2, w3, w4, w5) \<Rightarrow>
      \<lparr>rdb_conv_1 = Conv2d (channels + growth_channels * 0) growth_channels 3 1 1 w1,
       rdb_conv_2 = Conv2d (channels + growth_channels * 1) growth_channels 3 1 1 w2,
       rdb_conv_3 = Conv2d (channels + growth_channels * 2) growth_channels 3 1 1 w3,
       rdb_conv_4 = Conv2d (channels + growth_channels * 3) growth_channels 3 1 1 w4,
       rdb_conv_5 = Conv2d (channels + growth_channels * 4) channels 3 1 1 w5,
       rdb_leaky_relu = LeakyReLU 0.2 True\<rparr>)"

definition ResidualDenseBlock_forward :: "residual_dense_block \<Rightarrow> addr \<Rightarrow> addr prog" where
  "ResidualDenseBlock_forward self x =
     (let identity = x in
      seq (conv2d_call (rdb_conv_1 self) x) (\<lambda>t1.
      seq (leaky_relu_call (rdb_leaky_relu self) t1) (\<lambda>out_1.
      seq (cat_call [x, out_1]) (\<lambda>c2.
      seq (conv2d_call (rdb_conv_2 self) c2) (\<lambda>t2.
      seq (leaky_relu_call (rdb_leaky_relu self) t2) (\<lambda>out_2.
      seq (cat_call [x, out_1, out_2]) (\<lambda>c3.
      seq (conv2d_call (rdb_conv_3 self) c3) (\<lambda>t3.
      seq (leaky_relu_call (rdb_leaky_relu self) t3) (\<lambda>out_3.
      seq (cat_call [x, out_1, out_2, out_3]) (\<lambda>c4.
      seq (conv2d_call (rdb_conv_4 self) c4) (\<lambda>t4.
      seq (leaky_relu_call (rdb_leaky_relu self) t4) (\<lambda>out_4.
      seq (cat_call [x, out_1, out_2, out_3, out_4]) (\<lambda>c5.
      seq (conv2d_call (rdb_conv_5 self) c5) (\<lambda>t5.
      seq (identity_call t5) (\<lambda>out_5.
      seq (mul_call out_5 0.2) (\<lambda>out.
      add_call out identity))))))))))))))))"

section \<open>\<^verbatim>\<open>ResidualResidualDenseBlock\<close>\<close>

record residual_residual_dense_block =
  rdb_1 :: residual_dense_block
  rdb_2 :: residual_dense_block
  rdb_3 :: residual_dense_block

definition ResidualResidualDenseBlock ::
  "nat \<Rightarrow> nat \<Rightarrow> rdb_params \<Rightarrow> rdb_params \<Rightarrow> rdb_params \<Rightarrow> residual_residual_dense_block" where
  "ResidualResidualDenseBlock channels growth_channels ws1 ws2 ws3 =
     \<lparr>rdb_1 = ResidualDenseBlock channels growth_channels ws1,
      rdb_2 = ResidualDenseBlock channels growth_channels ws2,
      rdb_3 = ResidualDenseBlock channels growth_channels ws3\<rparr>"

definition ResidualResidualDenseBlock_forward ::
  "residual_residual_dense_block \<Rightarrow> addr \<Rightarrow> addr prog" where
  "ResidualResidualDenseBlock_forward self x =
     (let identity = x in
      seq (ResidualDenseBlock_forward (rdb_1 self) x) (\<lambda>out.
      seq (ResidualDenseBlock_forward (rdb_2 self) out) (\<lambda>out.
      seq (ResidualDenseBlock_forward (rdb_3 self) out) (\<lambda>out.
      seq (mul_call out 0.2) (\<lambda>out.
      add_call out identity)))))"

section \<open>\<^verbatim>\<open>ResidualFeatureDistillationBlock\<close>\<close>

text \<open>
  Modelled from the spec: \<^verbatim>\<open>EnhancedSpatialAttention\<close> is defined elsewhere in the
  package and is not part of this file.  Section 6 of the specification describes it as
  an opaque transform from a tensor to a tensor, injected at construction.  The block
  holds the gate as a function from a tensor to a tensor or an error, about which nothing
  else is assumed; a call of it returns a new tensor object.
\<close>

record residual_feature_distillation_block =
  distilled_channels :: nat
  remaining_channels :: nat
  conv_1_distilled :: conv2d
  conv_1_remaining :: conv2d
  conv_2_distilled :: conv2d
  conv_2_remaining :: conv2d
  conv_3_distilled :: conv2d
  conv_3_remaining :: conv2d
  rfdb_conv_4 :: conv2d
  rfdb_conv_5 :: conv2d
  esa :: "tensor \<Rightarrow> error + tensor"
  rfdb_leaky_relu :: leakyrelu

definition esa_call :: "(tensor \<Rightarrow> error + tensor) \<Rightarrow> addr \<Rightarrow> addr prog" where
  "esa_call gate x s = alloc (gate (s ! x)) s"

type_synonym rfdb_params =
  "params \<times> params \<times> params \<times> params \<times> params \<times> params \<times> params \<times> params"

definition ResidualFeatureDistillationBlock ::
  "nat \<Rightarrow> rfdb_params \<Rightarrow> (tensor \<Rightarrow> error + tensor) \<Rightarrow> residual_feature_distillation_block" where
  "ResidualFeatureDistillationBlock channels ws gate =
     (case ws of (w1d, w1r, w2d, w2r, w3d, w3r, w4, w5) \<Rightarrow>
      let distilled = channels div 2; remaining = channels in
      \<lparr>distilled_channels = distilled,
       remaining_channels = remaining,
       conv_1_distilled = Conv2d channels distilled 1 1 0 w1d,
       conv_1_remaining = Conv2d channels remaining 3 1 1 w1r,
       conv_2_distilled = Conv2d remaining distilled 1 1 0 w2d,
       conv_2_remaining = Conv2d remaining remaining 3 1 1 w2r,
       conv_3_distilled = Conv2d remaining distilled 1 1 0 w3d,
       conv_3_remaining = Conv2d remaining remaining 3 1 1 w3r,
       rfdb_conv_4 = Conv2d remaining distilled 3 1 1 w4,
       rfdb_conv_5 = Conv2d (distilled * 4) channels 1 1 0 w5,
       esa = gate,
       rfdb_leaky_relu = LeakyReLU 0.05 True\<rparr>)"

text \<open>Lines 101 to 122 of the source: the three stages, the fourth convolution and the
  concatenation.  The result is the address of the concatenated tensor.\<close>

definition rfdb_distil :: "residual_feature_distillation_block \<Rightarrow> addr \<Rightarrow> addr prog" where
  "rfdb_distil self x =
     seq (conv2d_call (conv_1_distilled self) x) (\<lambda>distilled_conv_1.
     seq (leaky_relu_call (rfdb_leaky_relu self) distilled_conv_1) (\<lambda>distilled_conv_1.
     seq (conv2d_call (conv_1_remaining self) x) (\<lambda>remaining_conv_1.
     seq (add_call remaining_conv_1 x) (\<lambda>remaining_conv_1.
     seq (leaky_relu_call (rfdb_leaky_relu self) remaining_conv_1) (\<lambda>remaining_conv_1.
     seq (conv2d_call (conv_2_distilled self) remaining_conv_1) (\<lambda>distilled_conv_2.
     seq (leaky_relu_call (rfdb_leaky_relu self) distilled_conv_2) (\<lambda>distilled_conv_2.
     seq (conv2d_call (conv_2_remaining self) remaining_conv_1) (\<lambda>remaining_conv_2.
     seq (add_call remaining_conv_2 remaining_conv_1) (\<lambda>remaining_conv_2.
     seq (leaky_relu_call (rfdb_leaky_relu self) remaining_conv_2) (\<lambda>remaining_conv_2.
     seq (conv2d_call (conv_3_distilled self) remaining_conv_2) (\<lambda>distilled_conv_3.
     seq (leaky_relu_call (rfdb_leaky_relu self) distilled_conv_3) (\<lambda>distilled_conv_3.
     seq (conv2d_call (conv_3_remaining self) remaining_conv_2) (\<lambda>remaining_conv_3.
     seq (add_call remaining_conv_3 remaining_conv_2) (\<lambda>remaining_conv_3.
     seq (leaky_relu_call (rfdb_leaky_relu self) remaining_conv_3) (\<lambda>remaining_conv_3.
     seq (conv2d_call (rfdb_conv_4 self) remaining_conv_3) (\<lambda>remaining_conv_4.
     seq (leaky_relu_call (rfdb_leaky_relu self) remaining_conv_4) (\<lambda>remaining_conv_4.
     cat_call [distilled_conv_1, distilled_conv_2, distilled_conv_3, remaining_conv_4])))))))))))))))))"

definition ResidualFeatureDistillationBlock_forward ::
  "residual_feature_distillation_block \<Rightarrow> addr \<Rightarrow> addr prog" where
  "ResidualFeatureDistillationBlock_forward self x =
     seq (rfdb_distil self x) (\<lambda>out.
     seq (conv2d_call (rfdb_conv_5 self) out) (\<lambda>out.
     esa_call (esa self) out))"

section \<open>The values the blocks compute\<close>

text \<open>
  The same sequences of operator calls on tensor values, without the store.  They are
  shown below to give the value that the forward functions return.
\<close>

definition rdb_value :: "residual_dense_block \<Rightarrow> tensor \<Rightarrow> error + tensor" where
  "rdb_value self x =
     (let act = F_leaky_relu (negative_slope (rdb_leaky_relu self)) in
      sbind (conv2d_forward (rdb_conv_1 self) x) (\<lambda>t1.
      sbind (cat_channels [x, act t1]) (\<lambda>c2.
      sbind (conv2d_forward (rdb_conv_2 self) c2) (\<lambda>t2.
      sbind (cat_channels [x, act t1, act t2]) (\<lambda>c3.
      sbind (conv2d_forward (rdb_conv_3 self) c3) (\<lambda>t3.
      sbind (cat_channels [x, act t1, act t2, act t3]) (\<lambda>c4.
      sbind (conv2d_forward (rdb_conv_4 self) c4) (\<lambda>t4.
      sbind (cat_channels [x, act t1, act t2, act t3, act t4]) (\<lambda>c5.
      sbind (conv2d_forward (rdb_conv_5 self) c5) (\<lambda>out_5.
      torch_add (torch_mul out_5 0.2) x))))))))))"

definition rrdb_value :: "residual_residual_dense_block \<Rightarrow> tensor \<Rightarrow> error + tensor" where
  "rrdb_value self x =
     sbind (rdb_value (rdb_1 self) x) (\<lambda>o1.
     sbind (rdb_value (rdb_2 self) o1) (\<lambda>o2.
     sbind (rdb_value (rdb_3 self) o2) (\<lambda>o3.
     torch_add (torch_mul o3 0.2) x)))"

definition rfdb_distil_value ::
  "residual_feature_distillation_block \<Rightarrow> tensor \<Rightarrow> error + tensor" where
  "rfdb_distil_value self x =
     (let act = F_leaky_relu (negative_slope (rfdb_leaky_relu self)) in
      sbind (conv2d_forward (conv_1_distilled self) x) (\<lambda>d1.
      sbind (conv2d_forward (conv_1_remaining self) x) (\<lambda>t1.
      sbind (torch_add t1 x) (\<lambda>u1.
      sbind (conv2d_forward (conv_2_distilled self) (act u1)) (\<lambda>d2.
      sbind (conv2d_forward (conv_2_remaining self) (act u1)) (\<lambda>t2.
      sbind (torch_add t2 (act u1)) (\<lambda>u2.
      sbind (conv2d_forward (conv_3_distilled self) (act u2)) (\<lambda>d3.
      sbind (conv2d_forward (conv_3_remaining self) (act u2)) (\<lambda>t3.
      sbind (torch_add t3 (act u2)) (\<lambda>u3.
      sbind (conv2d_forward (rfdb_conv_4 self) (act u3)) (\<lambda>t4.
      cat_channels [act d1, act d2, act d3, act t4])))))))))))"

definition rfdb_value :: "residual_feature_distillation_block \<Rightarrow> tensor \<Rightarrow> error + tensor" where
  "rfdb_value self x =
     sbind (rfdb_distil_value self x) (\<lambda>c.
     sbind (conv2d_forward (rfdb_conv_5 self) c) (\<lambda>fused.
     esa self fused))"

text \<open>A run started in store \<open>s\<close> leaves every tensor object of \<open>s\<close> as it was.\<close>

definition extends :: "store \<Rightarrow> store \<Rightarrow> bool" where
  "extends s s' = (length s \<le> length s' \<and> take (length s) s' = s)"

definition outcome :: "(error + addr) \<times> store \<Rightarrow> store \<Rightarrow> error + tensor \<Rightarrow> bool" where
  "outcome r s v =
     (case r of
        (Inl e, s') \<Rightarrow> extends s s' \<and> v = Inl e
      | (Inr p, s') \<Rightarrow> extends s s' \<and> p < length s' \<and> v = Inr (s' ! p))"

section \<open>Shapes and parameter sets\<close>

text \<open>A tensor of shape \<open>(n, c, h, w)\<close> with every dimension positive.\<close>

definition shaped :: "nat \<Rightarrow> nat \<Rightarrow> nat \<Rightarrow> nat \<Rightarrow> tensor \<Rightarrow> bool" where
  "shaped n c h w t = (0 < n \<and> 0 < c \<and> 0 < h \<and> 0 < w \<and> has_shape n c h w t)"

text \<open>The parameter sets of the shapes that the constructors declare.\<close>

definition rdb_params_ok :: "nat \<Rightarrow> nat \<Rightarrow> rdb_params \<Rightarrow> bool" where
  "rdb_params_ok channels growth_channels ws =
     (case ws of (w1, w2, w3, w4, w5) \<Rightarrow>
        params_ok (channels + growth_channels * 0) growth_channels 3 w1 \<and>
        params_ok (channels + growth_channels * 1) growth_channels 3 w2 \<and>
        params_ok (channels + growth_channels * 2) growth_channels 3 w3 \<and>
        params_ok (channels + growth_channels * 3) growth_channels 3 w4 \<and>
        params_ok (channels + growth_channels * 4) channels 3 w5)"

definition rfdb_params_ok :: "nat \<Rightarrow> rfdb_params \<Rightarrow> bool" where
  "rfdb_params_ok channels ws =
     (case ws of (w1d, w1r, w2d, w2r, w3d, w3r, w4, w5) \<Rightarrow>
        params_ok channels (channels div 2) 1 w1d \<and> params_ok channels channels 3 w1r \<and>
        params_ok channels (channels div 2) 1 w2d \<and> params_ok channels channels 3 w2r \<and>
        params_ok channels (channels div 2) 1 w3d \<and> params_ok channels channels 3 w3r \<and>
        params_ok channels (channels div 2) 3 w4 \<and>
        params_ok (channels div 2 * 4) channels 1 w5)"

text \<open>An element is finite; every element of a tensor is finite.\<close>

definition is_finite :: "elem \<Rightarrow> bool" where
  "is_finite v = (case v of Val _ \<Rightarrow> True | _ \<Rightarrow> False)"

definition tensor_finite :: "tensor \<Rightarrow> bool" where
  "tensor_finite t = list_all (list_all (list_all (list_all is_finite))) t"

text \<open>The index that a broadcast operand of size \<open>d\<close> is read at for the result index
  \<open>i\<close>: an operand of size 1 is read at 0 throughout.\<close>

definition bidx :: "nat \<Rightarrow> nat \<Rightarrow> nat" where
  "bidx d i = (if d = 1 then 0 else i)"

text \<open>Every weight and every bias is zero.\<close>

definition zero_params :: "params \<Rightarrow> bool" where
  "zero_params wb =
     (list_all (list_all (list_all (list_all (\<lambda>v. v = 0)))) (fst wb) \<and>
      list_all (\<lambda>v. v = 0) (snd wb))"

definition rdb_params_zero :: "rdb_params \<Rightarrow> bool" where
  "rdb_params_zero ws =
     (case ws of (w1, w2, w3, w4, w5) \<Rightarrow>
        zero_params w1 \<and> zero_params w2 \<and> zero_params w3 \<and> zero_params w4 \<and> zero_params w5)"

definition zeros :: "nat \<Rightarrow> nat \<Rightarrow> nat \<Rightarrow> nat \<Rightarrow> tensor" where
  "zeros n c h w = replicate n (replicate c (replicate h (replicate w 0)))"

section \<open>The operators and pipelines as the specification words them\<close>

text \<open>
  Sections 4.1 and 4.2 of the specification describe pure operators: a concatenation
  and a sum that fail with \<open>ShapeError\<close> on any shape mismatch, a scalar multiple, the
  leaky rectifier \<open>x \<ge> 0 ? x : slope * x\<close>, and a convolution that pads the input
  with zeros and then sums over the kernel window.  Sections 4.3 to 4.5 give each block
  as a pipeline of them.  These definitions follow that text; the theorems below
  compare them with the forward functions of the source.
\<close>

definition spec_leaky_relu :: "tensor \<Rightarrow> elem \<Rightarrow> tensor" where
  "spec_leaky_relu a slope = map_tensor (\<lambda>x. if x \<ge> 0 then x else slope * x) a"

definition spec_scale :: "tensor \<Rightarrow> elem \<Rightarrow> tensor" where
  "spec_scale a k = map_tensor (\<lambda>x. k * x) a"

definition spec_add :: "tensor \<Rightarrow> tensor \<Rightarrow> error + tensor" where
  "spec_add a b =
     (if dimN a = dimN b \<and> dimC a = dimC b \<and> dimH a = dimH b \<and> dimW a = dimW b
      then Inr (map2 (map2 (map2 (map2 (+)))) a b) else Inl ShapeError)"

fun spec_concat_channels :: "tensor list \<Rightarrow> error + tensor" where
  "spec_concat_channels [] = Inl ShapeError"
| "spec_concat_channels [t] = Inr t"
| "spec_concat_channels (t # u # ts) =
     sbind (spec_concat_channels (u # ts)) (\<lambda>r.
       if dimN t = dimN r \<and> dimH t = dimH r \<and> dimW t = dimW r
       then Inr (map2 (@) t r) else Inl ShapeError)"

text \<open>The plane with \<open>pad\<close> rows and columns of zeros on each border.\<close>

definition pad_plane :: "nat \<Rightarrow> plane \<Rightarrow> plane" where
  "pad_plane pad p =
     (let w = (case p of [] \<Rightarrow> 0 | r # _ \<Rightarrow> length r);
          blank = replicate (w + 2 * pad) 0
      in replicate pad blank @ map (\<lambda>r. replicate pad 0 @ r @ replicate pad 0) p @
         replicate pad blank)"

definition spec_conv :: "conv2d \<Rightarrow> tensor \<Rightarrow> error + tensor" where
  "spec_conv cp x =
     (if dimC x \<noteq> in_channels cp then Inl ShapeError
      else
        let k = kernel_size cp;
            ho = dimH x + 2 * padding cp + 1 - k;
            wo = dimW x + 2 * padding cp + 1 - k
        in Inr (map (\<lambda>img.
                  let x_padded = map (pad_plane (padding cp)) img
                  in map (\<lambda>oc. map (\<lambda>y. map (\<lambda>x.
                       (\<Sum>ic \<leftarrow> [0..<in_channels cp]. \<Sum>ky \<leftarrow> [0..<k]. \<Sum>kx \<leftarrow> [0..<k].
                          weight cp ! oc ! ic ! ky ! kx * x_padded ! ic ! (y + ky) ! (x + kx))
                       + bias cp ! oc) [0..<wo]) [0..<ho]) [0..<out_channels cp]) x))"

definition spec_rdb :: "residual_dense_block \<Rightarrow> tensor \<Rightarrow> error + tensor" where
  "spec_rdb b x =
     sbind (spec_conv (rdb_conv_1 b) x) (\<lambda>a1. let out1 = spec_leaky_relu a1 0.2 in
     sbind (spec_concat_channels [x, out1]) (\<lambda>k2.
     sbind (spec_conv (rdb_conv_2 b) k2) (\<lambda>a2. let out2 = spec_leaky_relu a2 0.2 in
     sbind (spec_concat_channels [x, out1, out2]) (\<lambda>k3.
     sbind (spec_conv (rdb_conv_3 b) k3) (\<lambda>a3. let out3 = spec_leaky_relu a3 0.2 in
     sbind (spec_concat_channels [x, out1, out2, out3]) (\<lambda>k4.
     sbind (spec_conv (rdb_conv_4 b) k4) (\<lambda>a4. let out4 = spec_leaky_relu a4 0.2 in
     sbind (spec_concat_channels [x, out1, out2, out3, out4]) (\<lambda>k5.
     sbind (spec_conv (rdb_conv_5 b) k5) (\<lambda>out5.
     spec_add x (spec_scale out5 0.2))))))))))"

definition spec_rrdb :: "residual_residual_dense_block \<Rightarrow> tensor \<Rightarrow> error + tensor" where
  "spec_rrdb b x =
     sbind (spec_rdb (rdb_1 b) x) (\<lambda>o1.
     sbind (spec_rdb (rdb_2 b) o1) (\<lambda>o2.
     sbind (spec_rdb (rdb_3 b) o2) (\<lambda>out.
     spec_add x (spec_scale out 0.2))))"

definition spec_rfdb :: "residual_feature_distillation_block \<Rightarrow> tensor \<Rightarrow> error + tensor" where
  "spec_rfdb b x =
     sbind (spec_conv (conv_1_distilled b) x) (\<lambda>a. let d1 = spec_leaky_relu a 0.05 in
     sbind (spec_conv (conv_1_remaining b) x) (\<lambda>a.
     sbind (spec_add a x) (\<lambda>a. let r1 = spec_leaky_relu a 0.05 in
     sbind (spec_conv (conv_2_distilled b) r1) (\<lambda>a. let d2 = spec_leaky_relu a 0.05 in
     sbind (spec_conv (conv_2_remaining b) r1) (\<lambda>a.
     sbind (spec_add a r1) (\<lambda>a. let r2 = spec_leaky_relu a 0.05 in
     sbind (spec_conv (conv_3_distilled b) r2) (\<lambda>a. let d3 = spec_leaky_relu a 0.05 in
     sbind (spec_conv (conv_3_remaining b) r2) (\<lambda>a.
     sbind (spec_add a r2) (\<lambda>a. let r3 = spec_leaky_relu a 0.05 in
     sbind (spec_conv (rfdb_conv_4 b) r3) (\<lambda>a. let r4 = spec_leaky_relu a 0.05 in
     sbind (spec_concat_channels [d1, d2, d3, r4]) (\<lambda>k.
     sbind (spec_conv (rfdb_conv_5 b) k) (\<lambda>fused.
     esa b fused))))))))))))"

section \<open>Example data\<close>

text \<open>A one-channel input of size \<open>2 \<times> 2\<close> and parameter sets for blocks with
  \<open>channels = 1\<close>, \<open>growth_channels = 1\<close>; they instantiate the theorems below.\<close>

definition ex_input :: tensor where
  "ex_input = [[[[1, -2], [3, 4]]]]"

definition ex_inf_input :: tensor where
  "ex_inf_input = [[[[PosInf]]]]"

definition k_id :: "elem list list" where
  "k_id = [[0, 0, 0], [0, 1, 0], [0, 0, 0]]"

definition k_col :: "elem list list" where
  "k_col = [[0, 1, 0], [0, 1, 0], [0, 1, 0]]"

definition k_zero :: "elem list list" where
  "k_zero = [[0, 0, 0], [0, 0, 0], [0, 0, 0]]"

definition ex_rdb_params :: rdb_params where
  "ex_rdb_params =
     (([[k_id]], [0]),
      ([[k_id, k_id]], [0]),
      ([[k_zero, k_zero, k_zero]], [0]),
      ([[k_zero, k_zero, k_zero, k_zero]], [0]),
      ([[k_col, k_col, k_col, k_zero, k_zero]], [0]))"

definition ex_zero_rdb_params :: rdb_params where
  "ex_zero_rdb_params =
     (([[k_zero]], [0]),
      ([[k_zero, k_zero]], [0]),
      ([[k_zero, k_zero, k_zero]], [0]),
      ([[k_zero, k_zero, k_zero, k_zero]], [0]),
      ([[k_zero, k_zero, k_zero, k_zero, k_zero]], [0]))"

text \<open>A two-channel input of size \<open>1 \<times> 2\<close> and parameters for a distillation block
  with \<open>channels = 2\<close>; an input and parameters for \<open>channels = 64\<close>.\<close>

definition ex_input2 :: tensor where
  "ex_input2 = [[[[1, -2]], [[3, 4]]]]"

definition ex_rfdb_params :: rfdb_params where
  "ex_rfdb_params =
     (([[[[1]], [[1]]]], [0]),
      ([[k_id, k_zero], [k_zero, k_id]], [0, 0]),
      ([[[[1]], [[1]]]], [0]),
      ([[k_id, k_zero], [k_zero, k_id]], [0, 0]),
      ([[[[1]], [[1]]]], [0]),
      ([[k_id, k_zero], [k_zero, k_id]], [0, 0]),
      ([[k_id, k_id]], [0]),
      ([[[[1]], [[1]], [[1]], [[1]]], [[[1]], [[0]], [[0]], [[0]]]], [0, 0]))"

definition ex_input64 :: tensor where
  "ex_input64 = [replicate 64 [[0]]]"

definition ex_rfdb_params64 :: rfdb_params where
  "ex_rfdb_params64 =
     ((replicate 32 (replicate 64 [[0]]), replicate 32 0),
      (replicate 64 (replicate 64 k_zero), replicate 64 0),
      (replicate 32 (replicate 64 [[0]]), replicate 32 0),
      (replicate 64 (replicate 64 k_zero), replicate 64 0),
      (replicate 32 (replicate 64 [[0]]), replicate 32 0),
      (replicate 64 (replicate 64 k_zero), replicate 64 0),
      (replicate 32 (replicate 64 k_zero), replicate 32 0),
      (replicate 64 (replicate 128 [[0]]), replicate 64 0))"

section \<open>Arithmetic of elements\<close>

lemma elem_mult_commute: "a * b = b * (a :: elem)"
  by (cases a; cases b) (simp_all add: mult.commute)

lemma numeral_elem: "numeral n = Val (numeral n)"
proof (induction n)
  case One
  show ?case by (simp only: numeral_One one_elem_def)
next
  case (Bit0 n)
  have "numeral (num.Bit0 n) = numeral n + (numeral n :: elem)" by (rule numeral_Bit0)
  also have "\<dots> = Val (numeral n + numeral n)" by (simp only: Bit0 plus_elem.simps)
  also have "numeral n + numeral n = (numeral (num.Bit0 n) :: real)" by (rule numeral_Bit0[symmetric])
  finally show ?case .
next
  case (Bit1 n)
  have "numeral (num.Bit1 n) = numeral n + numeral n + (1 :: elem)" by (rule numeral_Bit1)
  also have "\<dots> = Val (numeral n + numeral n + 1)"
    by (simp only: Bit1 plus_elem.simps one_elem_def)
  also have "numeral n + numeral n + 1 = (numeral (num.Bit1 n) :: real)"
    by (rule numeral_Bit1[symmetric])
  finally show ?case .
qed

lemma elem_lit: "(0.2::elem) = Val 0.2" "(0.05::elem) = Val 0.05"
  by (simp_all add: numeral_elem one_elem_def numeral_2_eq_2)

lemmas elem_eval = zero_elem_def one_elem_def numeral_elem

lemma is_finite_zero: "is_finite 0"
  by (simp add: is_finite_def zero_elem_def)

lemma zero_times_finite: "is_finite v \<Longrightarrow> 0 * v = 0"
  by (cases v) (simp_all add: is_finite_def zero_elem_def)

lemma tensor_finite_iff:
  "tensor_finite t \<longleftrightarrow> (\<forall>img\<in>set t. \<forall>p\<in>set img. \<forall>r\<in>set p. \<forall>v\<in>set r. is_finite v)"
  by (simp add: tensor_finite_def list_all_iff)

lemma padded_finite:
  assumes "\<forall>r\<in>set p. \<forall>v\<in>set r. is_finite v"
  shows "is_finite (padded p pad iy ix)"
proof (cases "pad \<le> iy \<and> iy - pad < length p \<and> pad \<le> ix \<and> ix - pad < length (p ! (iy - pad))")
  case True
  then have "p ! (iy - pad) \<in> set p" "p ! (iy - pad) ! (ix - pad) \<in> set (p ! (iy - pad))"
    by simp_all
  with assms have "is_finite (p ! (iy - pad) ! (ix - pad))" by blast
  moreover from True have "padded p pad iy ix = p ! (iy - pad) ! (ix - pad)"
    unfolding padded_def by (rule if_P)
  ultimately show ?thesis by simp
next
  case False
  then have "padded p pad iy ix = 0"
    unfolding padded_def by (rule if_not_P)
  then show ?thesis by (simp add: is_finite_zero)
qed

lemma cat_channels_finite:
  assumes "cat_channels ts = Inr r" "\<forall>t\<in>set ts. tensor_finite t"
  shows "tensor_finite r"
proof -
  from assms(1) obtain t rest where ts: "ts = t # rest"
    and same: "\<forall>u\<in>set rest. dimN u = dimN t"
    and r: "r = map (\<lambda>n. concat (map (\<lambda>u. u ! n) ts)) [0..<dimN t]"
    by (cases ts) (auto simp: cat_channels_def list_all_iff split: if_splits)
  have len: "length u = dimN t" if "u \<in> set ts" for u
    using that same by (auto simp: ts dimN_def)
  have "\<forall>r\<in>set p. \<forall>v\<in>set r. is_finite v"
    if "n < dimN t" "p \<in> set (concat (map (\<lambda>u. u ! n) ts))" for n p
  proof -
    from that(2) obtain u where u: "u \<in> set ts" "p \<in> set (u ! n)" by auto
    from len[OF u(1)] that(1) have "u ! n \<in> set u" by simp
    with assms(2) u show ?thesis by (auto simp: tensor_finite_iff)
  qed
  then show ?thesis unfolding tensor_finite_iff r by auto
qed

lemma zeros_finite: "tensor_finite (zeros n c h w)"
  by (auto simp: tensor_finite_iff zeros_def is_finite_zero)

section \<open>Shapes of the operator results\<close>

lemma kernel_3: "(3::nat) = 2 * 1 + 1"
  by simp

lemma kernel_1: "(1::nat) = 2 * 0 + 1"
  by simp


lemma shaped_dims:
  assumes "shaped n c h w t"
  shows "dimN t = n" "dimC t = c" "dimH t = h" "dimW t = w"
proof -
  from assms obtain img t' where t: "t = img # t'"
    by (cases t) (auto simp: shaped_def has_shape_def)
  from assms t obtain p img' where i: "img = p # img'"
    by (cases img) (auto simp: shaped_def has_shape_def)
  from assms t i obtain r p' where p: "p = r # p'"
    by (cases p) (auto simp: shaped_def has_shape_def)
  from assms t i p show "dimN t = n" "dimC t = c" "dimH t = h" "dimW t = w"
    by (auto simp: shaped_def has_shape_def dimN_def dimC_def dimH_def dimW_def)
qed

lemma tensor_wf_shaped: "tensor_wf t \<longleftrightarrow> shaped (dimN t) (dimC t) (dimH t) (dimW t) t"
  by (simp add: tensor_wf_def shaped_def)

lemma shaped_wf: "shaped n c h w t \<Longrightarrow> tensor_wf t"
  using shaped_dims[of n c h w t] by (simp add: tensor_wf_shaped)

lemma map_tensor_shaped: "shaped n c h w t \<Longrightarrow> shaped n c h w (map_tensor f t)"
  by (auto simp: shaped_def has_shape_def map_tensor_def list_all_iff)

lemma conv_out_shape:
  assumes "shaped n c h w t" "stride cv = 1" "kernel_size cv = 2 * padding cv + 1"
    "0 < out_channels cv"
  shows "shaped n (out_channels cv) h w (conv_out cv t)"
  using assms shaped_dims[OF assms(1)]
  by (auto simp: shaped_def has_shape_def conv_out_def list_all_iff)

lemma conv2d_forward_same:
  assumes "shaped n c h w t" "in_channels cv = c" "stride cv = 1"
    "kernel_size cv = 2 * padding cv + 1"
  shows "conv2d_forward cv t = Inr (conv_out cv t)"
  using assms shaped_dims[OF assms(1)]
  by (auto simp: conv2d_forward_def shaped_def)

lemma expand_same: "length xs = n \<Longrightarrow> expand n xs = xs"
  by (auto simp: expand_def split: list.splits)

lemma expand_tensor_same:
  assumes "has_shape n c h w t"
  shows "expand_tensor n c h w t = t"
proof -
  have "map (\<lambda>img. expand c (map (\<lambda>p. expand h (map (\<lambda>r. expand w r) p)) img)) t = map (\<lambda>img. img) t"
  proof (rule map_cong[OF refl])
    fix img assume "img \<in> set t"
    with assms have li: "length img = c" and ps: "\<forall>p\<in>set img. length p = h \<and> (\<forall>r\<in>set p. length r = w)"
      by (auto simp: has_shape_def list_all_iff)
    have "map (\<lambda>p. expand h (map (\<lambda>r. expand w r) p)) img = map (\<lambda>p. p) img"
    proof (rule map_cong[OF refl])
      fix p assume "p \<in> set img"
      with ps have lp: "length p = h" and rs: "\<forall>r\<in>set p. length r = w" by auto
      have "map (\<lambda>r. expand w r) p = map (\<lambda>r. r) p"
        by (rule map_cong[OF refl]) (use rs in \<open>simp add: expand_same\<close>)
      then show "expand h (map (\<lambda>r. expand w r) p) = p"
        using lp by (simp add: expand_same)
    qed
    then show "expand c (map (\<lambda>p. expand h (map (\<lambda>r. expand w r) p)) img) = img"
      using li by (simp add: expand_same)
  qed
  then show ?thesis
    using assms by (simp add: expand_tensor_def expand_same has_shape_def)
qed

lemma add_same_shaped:
  assumes "shaped n c h w a" "shaped n c h w b"
  shows "shaped n c h w (add_same a b)"
  using assms
  by (auto simp: shaped_def has_shape_def add_same_def list_all_iff dest!: set_zip_leftD set_zip_rightD
      elim!: in_set_zipE)

lemma torch_add_same:
  assumes "shaped n c h w a" "shaped n c h w b"
  shows "torch_add a b = Inr (add_same a b)"
  using assms shaped_dims[OF assms(1)] shaped_dims[OF assms(2)]
  by (simp add: torch_add_def broadcastable_def expand_tensor_same shaped_def)

lemma cat_len:
  "list_all2 (\<lambda>c t. shaped n c h w t) cs ts \<Longrightarrow> i < n \<Longrightarrow>
   length (concat (map (\<lambda>u. u ! i) ts)) = sum_list cs"
  by (induction rule: list_all2_induct) (auto simp: shaped_def has_shape_def list_all_iff)

lemma cat_planes:
  assumes "list_all2 (\<lambda>c t. shaped n c h w t) cs ts" "i < n"
    "p \<in> set (concat (map (\<lambda>u. u ! i) ts))"
  shows "length p = h \<and> (\<forall>r\<in>set p. length r = w)"
proof -
  from assms(3) obtain u where u: "u \<in> set ts" "p \<in> set (u ! i)" by auto
  from assms(1) u(1) obtain c where "shaped n c h w u"
    by (auto simp: list_all2_conv_all_nth in_set_conv_nth)
  then have "length u = n" "\<forall>img\<in>set u. \<forall>p\<in>set img. length p = h \<and> (\<forall>r\<in>set p. length r = w)"
    by (auto simp: shaped_def has_shape_def list_all_iff)
  moreover from this assms(2) have "u ! i \<in> set u" by simp
  ultimately show ?thesis using u(2) by blast
qed

lemma cat_channels_ok:
  assumes "list_all2 (\<lambda>c t. shaped n c h w t) cs ts" "ts \<noteq> []"
  shows "cat_channels ts = Inr (map (\<lambda>i. concat (map (\<lambda>u. u ! i) ts)) [0..<n])"
proof -
  from assms(2) obtain t rest where ts: "ts = t # rest" by (cases ts) auto
  have all: "\<forall>u\<in>set ts. dimN u = n \<and> dimH u = h \<and> dimW u = w"
  proof
    fix u assume "u \<in> set ts"
    with assms(1) obtain c where "shaped n c h w u"
      by (auto simp: list_all2_conv_all_nth in_set_conv_nth)
    then show "dimN u = n \<and> dimH u = h \<and> dimW u = w" by (simp add: shaped_dims)
  qed
  then show ?thesis unfolding ts cat_channels_def by (simp add: list_all_iff)
qed

lemma cat_channels_shaped:
  assumes "list_all2 (\<lambda>c t. shaped n c h w t) cs ts" "ts \<noteq> []"
  shows "shaped n (sum_list cs) h w (map (\<lambda>i. concat (map (\<lambda>u. u ! i) ts)) [0..<n])"
proof -
  from assms obtain c cs' t ts' where cs: "cs = c # cs'" "ts = t # ts'" "shaped n c h w t"
    by (cases ts; cases cs) auto
  then have pos: "0 < n" "0 < h" "0 < w" "0 < sum_list cs" by (auto simp: shaped_def)
  show ?thesis
    unfolding shaped_def has_shape_def list_all_iff
    using pos cat_len[OF assms(1)] cat_planes[OF assms(1)] by auto
qed

lemma cat_shaped:
  assumes "list_all2 (\<lambda>c t. shaped n c h w t) cs ts" "ts \<noteq> []"
  obtains r where "cat_channels ts = Inr r" "shaped n (sum_list cs) h w r"
  using cat_channels_ok[OF assms] cat_channels_shaped[OF assms] by blast

lemma conv_same_shaped:
  assumes "shaped n cin h w t" "0 < cout" "k = 2 * pad + 1"
  shows "conv2d_forward (Conv2d cin cout k 1 pad wb) t = Inr (conv_out (Conv2d cin cout k 1 pad wb) t)"
    and "shaped n cout h w (conv_out (Conv2d cin cout k 1 pad wb) t)"
proof -
  show "conv2d_forward (Conv2d cin cout k 1 pad wb) t = Inr (conv_out (Conv2d cin cout k 1 pad wb) t)"
    by (rule conv2d_forward_same[OF assms(1)]) (simp_all add: Conv2d_def assms(3))
  have "shaped n (out_channels (Conv2d cin cout k 1 pad wb)) h w (conv_out (Conv2d cin cout k 1 pad wb) t)"
    by (rule conv_out_shape[OF assms(1)]) (simp_all add: Conv2d_def assms)
  then show "shaped n cout h w (conv_out (Conv2d cin cout k 1 pad wb) t)"
    by (simp add: Conv2d_def)
qed

lemma F_leaky_relu_shaped: "shaped n c h w t \<Longrightarrow> shaped n c h w (F_leaky_relu sl t)"
  by (simp add: F_leaky_relu_def map_tensor_shaped)

lemma torch_mul_shaped: "shaped n c h w t \<Longrightarrow> shaped n c h w (torch_mul t k)"
  by (simp add: torch_mul_def map_tensor_shaped)

section \<open>Convolutions with zero parameters\<close>

lemma sum_list_all_zero: "(\<And>x. x \<in> set xs \<Longrightarrow> f x = (0::elem)) \<Longrightarrow> sum_list (map f xs) = 0"
  by (induction xs) auto

lemma has_shape_nth:
  assumes "has_shape n c h w t" "i < n"
  shows "length (t ! i) = c"
    and "j < c \<Longrightarrow> length (t ! i ! j) = h"
    and "j < c \<Longrightarrow> y < h \<Longrightarrow> length (t ! i ! j ! y) = w"
proof -
  from assms have m1: "t ! i \<in> set t" by (simp add: has_shape_def)
  with assms(1) show l1: "length (t ! i) = c"
    by (simp add: has_shape_def list_all_iff)
  from assms(1) m1 have a2: "\<forall>p\<in>set (t ! i). length p = h \<and> (\<forall>r\<in>set p. length r = w)"
    by (simp add: has_shape_def list_all_iff)
  { assume j: "j < c"
    with l1 have m2: "t ! i ! j \<in> set (t ! i)" by simp
    with a2 show l2: "length (t ! i ! j) = h" by blast
    { assume "y < h"
      with l2 have "t ! i ! j ! y \<in> set (t ! i ! j)" by simp
      with a2 m2 show "length (t ! i ! j ! y) = w" by blast } }
qed

lemma zero_weight_nth:
  assumes "params_ok cin cout k wb" "zero_params wb" "oc < cout" "ic < cin" "ky < k" "kx < k"
  shows "fst wb ! oc ! ic ! ky ! kx = 0"
proof -
  let ?W = "fst wb"
  from assms(1) have hs: "has_shape cout cin k k ?W" by (simp add: params_ok_def)
  note ls = has_shape_nth[OF hs assms(3)]
  from hs assms(3) have 1: "?W ! oc \<in> set ?W" by (simp add: has_shape_def)
  from ls(1) assms(4) have 2: "?W ! oc ! ic \<in> set (?W ! oc)" by simp
  from ls(2)[OF assms(4)] assms(5) have 3: "?W ! oc ! ic ! ky \<in> set (?W ! oc ! ic)" by simp
  from ls(3)[OF assms(4,5)] assms(6) have 4: "?W ! oc ! ic ! ky ! kx \<in> set (?W ! oc ! ic ! ky)"
    by simp
  from assms(2) 1 2 3 4 show ?thesis
    by (simp add: zero_params_def list_all_iff)
qed

lemma zero_bias_nth:
  assumes "params_ok cin cout k wb" "zero_params wb" "oc < cout"
  shows "snd wb ! oc = 0"
  using assms by (simp add: params_ok_def zero_params_def list_all_iff)

lemma conv_pixel_zero:
  assumes "params_ok cin cout k wb" "zero_params wb" "oc < cout" "length img = cin"
    and fin: "\<forall>p\<in>set img. \<forall>r\<in>set p. \<forall>v\<in>set r. is_finite v"
  shows "conv_pixel (Conv2d cin cout k st pad wb) img oc y x = 0"
proof -
  have cell: "fst wb ! oc ! ic ! ky ! kx * padded (img ! ic) pad (y * st + ky) (x * st + kx) = 0"
    if "ic < length img" "ky < k" "kx < k" for ic ky kx
  proof -
    from that(1) have "img ! ic \<in> set img" by simp
    with fin have "\<forall>r\<in>set (img ! ic). \<forall>v\<in>set r. is_finite v" by blast
    then have "is_finite (padded (img ! ic) pad (y * st + ky) (x * st + kx))"
      by (rule padded_finite)
    moreover from that assms(4) have "fst wb ! oc ! ic ! ky ! kx = 0"
      by (intro zero_weight_nth[OF assms(1,2,3)]) simp_all
    ultimately show ?thesis by (simp add: zero_times_finite)
  qed
  have "(\<Sum>ic \<leftarrow> [0..<length img]. \<Sum>ky \<leftarrow> [0..<k]. \<Sum>kx \<leftarrow> [0..<k].
        fst wb ! oc ! ic ! ky ! kx * padded (img ! ic) pad (y * st + ky) (x * st + kx)) = 0"
    by (intro sum_list_all_zero) (simp add: cell)
  then show ?thesis
    using zero_bias_nth[OF assms(1,2,3)] by (simp add: conv_pixel_def Conv2d_def)
qed

lemma conv_out_zero:
  assumes "params_ok cin cout k wb" "zero_params wb" "shaped n cin h w t" "k = 2 * pad + 1"
    and fin: "tensor_finite t"
  shows "conv_out (Conv2d cin cout k 1 pad wb) t = zeros n cout h w"
proof -
  let ?cv = "Conv2d cin cout k 1 pad wb"
  have img: "map (\<lambda>oc. map (\<lambda>y. map (\<lambda>x. conv_pixel ?cv img oc y x) [0..<w]) [0..<h]) [0..<cout]
      = replicate cout (replicate h (replicate w 0))" if "img \<in> set t" for img
  proof -
    from that assms(3) have li: "length img = cin"
      by (simp add: shaped_def has_shape_def list_all_iff)
    from that fin have fi: "\<forall>p\<in>set img. \<forall>r\<in>set p. \<forall>v\<in>set r. is_finite v"
      by (simp add: tensor_finite_iff)
    have "map (\<lambda>oc. map (\<lambda>y. map (\<lambda>x. conv_pixel ?cv img oc y x) [0..<w]) [0..<h]) [0..<cout]
       = map (\<lambda>oc. map (\<lambda>y. map (\<lambda>x. 0) [0..<w]) [0..<h]) [0..<cout]"
      by (intro map_cong refl) (simp add: conv_pixel_zero[OF assms(1,2) _ li fi])
    then show ?thesis by (simp add: map_replicate_const)
  qed
  from assms(3,4) have hw: "(h + 2 * pad - k) div 1 + 1 = h" "(w + 2 * pad - k) div 1 + 1 = w"
    by (auto simp: shaped_def)
  have "conv_out ?cv t =
      map (\<lambda>img. map (\<lambda>oc. map (\<lambda>y. map (\<lambda>x. conv_pixel ?cv img oc y x) [0..<w]) [0..<h]) [0..<cout]) t"
    unfolding conv_out_def Let_def using shaped_dims[OF assms(3)] hw
    by (simp add: Conv2d_def del: upt_Suc)
  also have "\<dots> = map (\<lambda>img. replicate cout (replicate h (replicate w 0))) t"
    by (intro map_cong refl) (erule img)
  also have "\<dots> = zeros n cout h w"
    using assms(3) by (simp add: map_replicate_const zeros_def shaped_def has_shape_def)
  finally show ?thesis .
qed

lemma zeros_shaped: "0 < n \<Longrightarrow> 0 < c \<Longrightarrow> 0 < h \<Longrightarrow> 0 < w \<Longrightarrow> shaped n c h w (zeros n c h w)"
  by (simp add: shaped_def has_shape_def zeros_def list_all_iff)

lemma map_tensor_zeros: "f 0 = 0 \<Longrightarrow> map_tensor f (zeros n c h w) = zeros n c h w"
  by (simp add: map_tensor_def zeros_def)

lemma map2_replicate_unit:
  "length xs = n \<Longrightarrow> (\<And>x. x \<in> set xs \<Longrightarrow> f c x = x) \<Longrightarrow> map2 f (replicate n c) xs = xs"
  by (induction xs arbitrary: n) auto

lemma add_same_zeros:
  assumes "has_shape n c h w t"
  shows "add_same (zeros n c h w) t = t"
  unfolding add_same_def zeros_def
  using assms
  by (intro map2_replicate_unit) (auto simp: has_shape_def list_all_iff)

section \<open>The dense chain\<close>

lemma rdb_chain:
  fixes act :: "tensor \<Rightarrow> tensor"
  assumes g: "0 < g" and x: "shaped n ch h w x"
    and act: "\<And>c t. shaped n c h w t \<Longrightarrow> shaped n c h w (act t)"
  obtains t1 c2 t2 c3 t3 c4 t4 c5 where
    "t1 = conv_out (Conv2d (ch + g * 0) g 3 1 1 w1) x"
    "conv2d_forward (Conv2d (ch + g * 0) g 3 1 1 w1) x = Inr t1" "shaped n g h w t1"
    "cat_channels [x, act t1] = Inr c2" "shaped n (ch + g * 1) h w c2"
    "t2 = conv_out (Conv2d (ch + g * 1) g 3 1 1 w2) c2"
    "conv2d_forward (Conv2d (ch + g * 1) g 3 1 1 w2) c2 = Inr t2" "shaped n g h w t2"
    "cat_channels [x, act t1, act t2] = Inr c3" "shaped n (ch + g * 2) h w c3"
    "t3 = conv_out (Conv2d (ch + g * 2) g 3 1 1 w3) c3"
    "conv2d_forward (Conv2d (ch + g * 2) g 3 1 1 w3) c3 = Inr t3" "shaped n g h w t3"
    "cat_channels [x, act t1, act t2, act t3] = Inr c4" "shaped n (ch + g * 3) h w c4"
    "t4 = conv_out (Conv2d (ch + g * 3) g 3 1 1 w4) c4"
    "conv2d_forward (Conv2d (ch + g * 3) g 3 1 1 w4) c4 = Inr t4" "shaped n g h w t4"
    "cat_channels [x, act t1, act t2, act t3, act t4] = Inr c5" "shaped n (ch + g * 4) h w c5"
proof -
  from x have ch: "0 < ch" by (simp add: shaped_def)
  define t1 where "t1 = conv_out (Conv2d (ch + g * 0) g 3 1 1 w1) x"
  have x0: "shaped n (ch + g * 0) h w x" using x by simp
  note k1 = conv_same_shaped[OF x0 g, of 3 1 w1, folded t1_def, simplified]
  from x act[OF k1(2)] have "list_all2 (\<lambda>c t. shaped n c h w t) [ch, g] [x, act t1]" by simp
  then obtain c2 where c2: "cat_channels [x, act t1] = Inr c2" "shaped n (sum_list [ch, g]) h w c2"
    by (rule cat_shaped) simp_all
  then have c2s: "shaped n (ch + g * 1) h w c2" by simp
  define t2 where "t2 = conv_out (Conv2d (ch + g * 1) g 3 1 1 w2) c2"
  note k2 = conv_same_shaped[OF c2s g, of 3 1 w2, folded t2_def, simplified]
  from x act[OF k1(2)] act[OF k2(2)]
  have "list_all2 (\<lambda>c t. shaped n c h w t) [ch, g, g] [x, act t1, act t2]" by simp
  then obtain c3 where c3: "cat_channels [x, act t1, act t2] = Inr c3"
    "shaped n (sum_list [ch, g, g]) h w c3"
    by (rule cat_shaped) simp_all
  then have c3s: "shaped n (ch + g * 2) h w c3" by (simp add: mult_2_right)
  define t3 where "t3 = conv_out (Conv2d (ch + g * 2) g 3 1 1 w3) c3"
  note k3 = conv_same_shaped[OF c3s g, of 3 1 w3, folded t3_def, simplified]
  from x act[OF k1(2)] act[OF k2(2)] act[OF k3(2)]
  have "list_all2 (\<lambda>c t. shaped n c h w t) [ch, g, g, g] [x, act t1, act t2, act t3]" by simp
  then obtain c4 where c4: "cat_channels [x, act t1, act t2, act t3] = Inr c4"
    "shaped n (sum_list [ch, g, g, g]) h w c4"
    by (rule cat_shaped) simp_all
  have "sum_list [ch, g, g, g] = ch + g * 3" by simp
  with c4(2) have c4s: "shaped n (ch + g * 3) h w c4" by (simp only:)
  define t4 where "t4 = conv_out (Conv2d (ch + g * 3) g 3 1 1 w4) c4"
  note k4 = conv_same_shaped[OF c4s g, of 3 1 w4, folded t4_def, simplified]
  from x act[OF k1(2)] act[OF k2(2)] act[OF k3(2)] act[OF k4(2)]
  have "list_all2 (\<lambda>c t. shaped n c h w t) [ch, g, g, g, g] [x, act t1, act t2, act t3, act t4]"
    by simp
  then obtain c5 where c5: "cat_channels [x, act t1, act t2, act t3, act t4] = Inr c5"
    "shaped n (sum_list [ch, g, g, g, g]) h w c5"
    by (rule cat_shaped) simp_all
  have "sum_list [ch, g, g, g, g] = ch + g * 4" by simp
  with c5(2) have c5s: "shaped n (ch + g * 4) h w c5" by (simp only:)
  show thesis
    by (rule that[of t1 c2 t2 c3 t3 c4 t4 c5])
      (use t1_def k1 t2_def k2 t3_def k3 t4_def k4 c2(1) c2s c3(1) c3s c4(1) c4s c5(1) c5s
        in simp_all)
qed

section \<open>Runs on the store\<close>

lemma extends_refl: "extends s s"
  by (simp add: extends_def)

lemma extends_trans: "extends a b \<Longrightarrow> extends b c \<Longrightarrow> extends a c"
  unfolding extends_def
  by (metis le_trans min.absorb2 take_take min.commute)

lemma extends_nth: "extends s s' \<Longrightarrow> i < length s \<Longrightarrow> s' ! i = s ! i"
  unfolding extends_def by (metis nth_take)

lemma rdb_outcome:
  assumes "x < length s"
  shows "outcome (ResidualDenseBlock_forward self x s) s (rdb_value self (s ! x))"
  using assms
  unfolding ResidualDenseBlock_forward_def rdb_value_def outcome_def extends_def
    conv2d_call_def cat_call_def add_call_def mul_call_def leaky_relu_call_def identity_call_def
  by (simp add: seq_def alloc_def ret_def sbind_def Let_def nth_append split: sum.splits)

lemma rfdb_distil_outcome:
  assumes "x < length s"
  shows "outcome (rfdb_distil self x s) s (rfdb_distil_value self (s ! x))"
  using assms
  unfolding rfdb_distil_def rfdb_distil_value_def outcome_def extends_def
    conv2d_call_def cat_call_def add_call_def mul_call_def leaky_relu_call_def identity_call_def
  by (simp add: seq_def alloc_def ret_def sbind_def Let_def nth_append split: sum.splits)

lemma outcome_seq:
  assumes m: "outcome (m s) s v"
    and f: "\<And>p s'. m s = (Inr p, s') \<Longrightarrow> v = Inr (s' ! p) \<Longrightarrow> p < length s' \<Longrightarrow> extends s s' \<Longrightarrow>
              outcome (f p s') s' (g (s' ! p))"
  shows "outcome (seq m f s) s (sbind v g)"
proof (cases "m s")
  case (Pair r s')
  show ?thesis
  proof (cases r)
    case (Inl e)
    with Pair m show ?thesis by (simp add: outcome_def seq_def sbind_def)
  next
    case (Inr p)
    with Pair m have e: "extends s s'" "p < length s'" "v = Inr (s' ! p)"
      by (simp_all add: outcome_def)
    from f[OF Pair[unfolded Inr] e(3) e(2) e(1)] have o: "outcome (f p s') s' (g (s' ! p))" .
    show ?thesis using o e Pair Inr
      by (auto simp: outcome_def seq_def sbind_def split: sum.splits prod.splits
          intro: extends_trans)
  qed
qed

section \<open>The operators of the specification agree with the library operators\<close>

lemma leaky_relu_point:
  "(if x \<ge> 0 then x else Val k * x) = (if 0 < x then x else x * Val k)"
  by (cases x) (auto simp: zero_elem_def)

lemma spec_leaky_relu_finite: "spec_leaky_relu t (Val k) = F_leaky_relu (Val k) t"
  by (simp add: spec_leaky_relu_def F_leaky_relu_def leaky_relu_point)

lemma spec_leaky_relu_eq:
  "spec_leaky_relu t 0.2 = F_leaky_relu 0.2 t"
  "spec_leaky_relu t 0.05 = F_leaky_relu 0.05 t"
  unfolding elem_lit by (rule spec_leaky_relu_finite)+

lemma spec_scale_eq: "spec_scale t k = torch_mul t k"
proof -
  have "(\<lambda>x. k * x) = (\<lambda>v. v * k)"
    by (rule ext) (rule elem_mult_commute)
  then show ?thesis by (simp add: spec_scale_def torch_mul_def)
qed

lemma map2_flip: "(\<And>x y. f x y = g y x) \<Longrightarrow> map2 f xs ys = map2 g ys xs"
proof (induction xs arbitrary: ys)
  case Nil
  then show ?case by simp
next
  case (Cons x xs)
  then show ?case by (cases ys) auto
qed

lemma add_same_commute: "add_same a b = add_same b a"
  unfolding add_same_def
  by (intro map2_flip) (simp add: add.commute)

lemma spec_add_eq:
  assumes "shaped n c h w a" "shaped n c h w b"
  shows "spec_add a b = Inr (add_same b a)"
  using shaped_dims[OF assms(1)] shaped_dims[OF assms(2)] add_same_commute[of a b]
  by (simp add: spec_add_def add_same_def)

lemma cat_out_Cons:
  assumes "length t = n"
  shows "map (\<lambda>i. concat (map (\<lambda>u. u ! i) (t # ts))) [0..<n]
       = map2 (@) t (map (\<lambda>i. concat (map (\<lambda>u. u ! i) ts)) [0..<n])"
  using assms by (intro nth_equalityI) auto

lemma spec_concat_eq:
  assumes "list_all2 (\<lambda>c t. shaped n c h w t) cs ts" "ts \<noteq> []"
  shows "spec_concat_channels ts = cat_channels ts"
  using assms
proof (induction ts arbitrary: cs rule: spec_concat_channels.induct)
  case 1
  then show ?case by simp
next
  case (2 t)
  then obtain c where "shaped n c h w t" by (cases cs) auto
  then have "dimN t = n" "length t = n" using shaped_dims(1)[of n c h w t] by (auto simp: dimN_def)
  then have "map (\<lambda>i. [t ! i] ! 0) [0..<n] = t" 
    by (intro nth_equalityI) auto
  then show ?case using \<open>dimN t = n\<close> by (simp add: cat_channels_def)
next
  case (3 t u ts)
  from "3.prems" obtain c cs' where cs: "cs = c # cs'" "shaped n c h w t"
    "list_all2 (\<lambda>c t. shaped n c h w t) cs' (u # ts)"
    by (cases cs) auto
  have ih: "spec_concat_channels (u # ts) = cat_channels (u # ts)"
    by (rule "3.IH"[OF cs(3)]) simp
  let ?r = "map (\<lambda>i. concat (map (\<lambda>v. v ! i) (u # ts))) [0..<n]"
  have r: "cat_channels (u # ts) = Inr ?r" "shaped n (sum_list cs') h w ?r"
    using cat_channels_ok[OF cs(3)] cat_channels_shaped[OF cs(3)] by simp_all
  have full: "cat_channels (t # u # ts) = Inr (map (\<lambda>i. concat (map (\<lambda>v. v ! i) (t # u # ts))) [0..<n])"
    using cat_channels_ok[OF "3.prems"(1)] by simp
  have lt: "length t = n" using cs(2) by (simp add: shaped_def has_shape_def)
  show ?case
    using shaped_dims[OF cs(2)] shaped_dims[OF r(2)] cat_out_Cons[OF lt, of "u # ts"]
    by (simp add: ih r(1) full sbind_def del: upt_Suc)
qed

lemma pad_plane_nth:
  assumes "length p = h" "\<forall>r\<in>set p. length r = w" "0 < h" "iy < h + 2 * pad" "ix < w + 2 * pad"
  shows "pad_plane pad p ! iy ! ix = padded p pad iy ix"
proof -
  from assms obtain r0 p' where p: "p = r0 # p'" by (cases p) auto
  with assms have w: "(case p of [] \<Rightarrow> 0 | r # _ \<Rightarrow> length r) = w" by simp
  define blank where "blank = replicate (w + 2 * pad) (0::elem)"
  have pp: "pad_plane pad p = replicate pad blank @ map (\<lambda>r. replicate pad 0 @ r @ replicate pad 0) p @
         replicate pad blank"
    unfolding pad_plane_def w blank_def Let_def ..
  have b: "blank ! ix = 0" using assms(5) by (simp add: blank_def)
  consider "iy < pad" | "pad \<le> iy" "iy - pad < h" | "pad \<le> iy" "h \<le> iy - pad" by linarith
  then show ?thesis
  proof cases
    case 1
    then show ?thesis by (simp add: pp nth_append b padded_def)
  next
    case 2
    let ?r = "p ! (iy - pad)"
    from 2 assms have lr: "length ?r = w" by simp
    from 2 assms have row: "pad_plane pad p ! iy = replicate pad 0 @ ?r @ replicate pad 0"
      by (simp add: pp nth_append)
    show ?thesis
      using 2 assms(1,5) lr unfolding row padded_def
      by (auto simp: nth_append)
  next
    case 3
    with assms have "pad_plane pad p ! iy = blank"
      by (simp add: pp nth_append)
    with 3 assms(1) show ?thesis by (simp add: b padded_def)
  qed
qed

lemma sum_list_cong: "(\<And>x. x \<in> set xs \<Longrightarrow> f x = g x) \<Longrightarrow> sum_list (map f xs) = sum_list (map g xs)"
  by (induction xs) auto

lemma spec_conv_eq:
  assumes x: "shaped n cin h w x" and k: "k = 2 * pad + 1"
  shows "spec_conv (Conv2d cin cout k 1 pad wb) x = Inr (conv_out (Conv2d cin cout k 1 pad wb) x)"
proof -
  let ?cv = "Conv2d cin cout k 1 pad wb"
  note d = shaped_dims[OF x]
  from x k have hw: "(h + 2 * pad - k) div 1 + 1 = h" "(w + 2 * pad - k) div 1 + 1 = w"
    "h + 2 * pad + 1 - k = h" "w + 2 * pad + 1 - k = w" "0 < h" "0 < w"
    by (auto simp: shaped_def)
  have px: "(\<Sum>ic \<leftarrow> [0..<cin]. \<Sum>ky \<leftarrow> [0..<k]. \<Sum>kx \<leftarrow> [0..<k].
              fst wb ! oc ! ic ! ky ! kx * map (pad_plane pad) img ! ic ! (y + ky) ! (xx + kx)) + snd wb ! oc
          = conv_pixel ?cv img oc y xx"
    if img: "img \<in> set x" and y: "y < h" and xx: "xx < w" for img oc y xx
  proof -
    from img x have li: "length img = cin"
      and pl: "\<forall>p\<in>set img. length p = h \<and> (\<forall>r\<in>set p. length r = w)"
      by (auto simp: shaped_def has_shape_def list_all_iff)
    have cell: "map (pad_plane pad) img ! ic ! (y + ky) ! (xx + kx)
        = padded (img ! ic) pad (y * 1 + ky) (xx * 1 + kx)"
      if "ic < cin" "ky < k" "kx < k" for ic ky kx
    proof -
      from that li have m: "img ! ic \<in> set img" by simp
      with pl have "length (img ! ic) = h" "\<forall>r\<in>set (img ! ic). length r = w" by auto
      from pad_plane_nth[OF this hw(5), of "y + ky" pad "xx + kx"] that y xx k li
      show ?thesis by simp
    qed
    have "(\<Sum>ic \<leftarrow> [0..<cin]. \<Sum>ky \<leftarrow> [0..<k]. \<Sum>kx \<leftarrow> [0..<k].
              fst wb ! oc ! ic ! ky ! kx * map (pad_plane pad) img ! ic ! (y + ky) ! (xx + kx))
        = (\<Sum>ic \<leftarrow> [0..<cin]. \<Sum>ky \<leftarrow> [0..<k]. \<Sum>kx \<leftarrow> [0..<k].
              fst wb ! oc ! ic ! ky ! kx * padded (img ! ic) pad (y * 1 + ky) (xx * 1 + kx))"
      by (intro sum_list_cong) (simp add: cell)
    then show ?thesis by (simp add: conv_pixel_def Conv2d_def li add.commute)
  qed
  have "spec_conv ?cv x = Inr (map (\<lambda>img.
                  map (\<lambda>oc. map (\<lambda>y. map (\<lambda>xx.
                       (\<Sum>ic \<leftarrow> [0..<cin]. \<Sum>ky \<leftarrow> [0..<k]. \<Sum>kx \<leftarrow> [0..<k].
                          fst wb ! oc ! ic ! ky ! kx * map (pad_plane pad) img ! ic ! (y + ky) ! (xx + kx))
                       + snd wb ! oc) [0..<w]) [0..<h]) [0..<cout]) x)"
    unfolding spec_conv_def Let_def using d hw(3,4) by (simp add: Conv2d_def del: upt_Suc)
  also have "\<dots> = Inr (map (\<lambda>img. map (\<lambda>oc. map (\<lambda>y. map (\<lambda>xx. conv_pixel ?cv img oc y xx) [0..<w]) [0..<h]) [0..<cout]) x)"
    by (simp add: px del: upt_Suc cong: map_cong)
  also have "\<dots> = Inr (conv_out ?cv x)"
    unfolding conv_out_def Let_def using d hw(1,2) by (simp add: Conv2d_def del: upt_Suc)
  finally show ?thesis .
qed

section \<open>The value of the dense block\<close>

lemma rdb_refines:
  assumes g: "0 < g" and x: "shaped n ch h w x"
  obtains c5 where "shaped n (ch + g * 4) h w c5"
    "rdb_value (ResidualDenseBlock ch g (w1, w2, w3, w4, w5)) x
       = Inr (add_same (torch_mul (conv_out (Conv2d (ch + g * 4) ch 3 1 1 w5) c5) 0.2) x)"
    "spec_rdb (ResidualDenseBlock ch g (w1, w2, w3, w4, w5)) x
       = Inr (add_same (torch_mul (conv_out (Conv2d (ch + g * 4) ch 3 1 1 w5) c5) 0.2) x)"
proof -
  define act where "act = F_leaky_relu 0.2"
  have act: "\<And>c t. shaped n c h w t \<Longrightarrow> shaped n c h w (act t)"
    by (simp add: act_def F_leaky_relu_shaped)
  from x have ch: "0 < ch" by (simp add: shaped_def)
  obtain t1 c2 t2 c3 t3 c4 t4 c5 where c:
    "t1 = conv_out (Conv2d (ch + g * 0) g 3 1 1 w1) x"
    "conv2d_forward (Conv2d (ch + g * 0) g 3 1 1 w1) x = Inr t1" "shaped n g h w t1"
    "cat_channels [x, act t1] = Inr c2" "shaped n (ch + g * 1) h w c2"
    "t2 = conv_out (Conv2d (ch + g * 1) g 3 1 1 w2) c2"
    "conv2d_forward (Conv2d (ch + g * 1) g 3 1 1 w2) c2 = Inr t2" "shaped n g h w t2"
    "cat_channels [x, act t1, act t2] = Inr c3" "shaped n (ch + g * 2) h w c3"
    "t3 = conv_out (Conv2d (ch + g * 2) g 3 1 1 w3) c3"
    "conv2d_forward (Conv2d (ch + g * 2) g 3 1 1 w3) c3 = Inr t3" "shaped n g h w t3"
    "cat_channels [x, act t1, act t2, act t3] = Inr c4" "shaped n (ch + g * 3) h w c4"
    "t4 = conv_out (Conv2d (ch + g * 3) g 3 1 1 w4) c4"
    "conv2d_forward (Conv2d (ch + g * 3) g 3 1 1 w4) c4 = Inr t4" "shaped n g h w t4"
    "cat_channels [x, act t1, act t2, act t3, act t4] = Inr c5" "shaped n (ch + g * 4) h w c5"
    by (rule rdb_chain[OF g x act])
  define t5 where "t5 = conv_out (Conv2d (ch + g * 4) ch 3 1 1 w5) c5"
  note k5 = conv_same_shaped[OF c(20) ch, of 3 1 w5, folded t5_def, simplified]
  have m: "shaped n ch h w (torch_mul t5 0.2)" by (rule torch_mul_shaped[OF k5(2)])
  have fin: "torch_add (torch_mul t5 0.2) x = Inr (add_same (torch_mul t5 0.2) x)"
    by (rule torch_add_same[OF m x])
  have v: "rdb_value (ResidualDenseBlock ch g (w1, w2, w3, w4, w5)) x
       = Inr (add_same (torch_mul t5 0.2) x)"
    unfolding rdb_value_def ResidualDenseBlock_def LeakyReLU_def
    using c(2,4,7,9,12,14,17,19) k5(1) fin
    by (simp add: sbind_def act_def)
  have s1: "spec_conv (Conv2d (ch + g * 0) g 3 1 1 w1) x = Inr t1"
    unfolding c(1) by (rule spec_conv_eq) (use x in simp_all)
  have s2: "spec_conv (Conv2d (ch + g * 1) g 3 1 1 w2) c2 = Inr t2"
    unfolding c(6) by (rule spec_conv_eq[OF c(5)]) simp
  have s3: "spec_conv (Conv2d (ch + g * 2) g 3 1 1 w3) c3 = Inr t3"
    unfolding c(11) by (rule spec_conv_eq[OF c(10)]) simp
  have s4: "spec_conv (Conv2d (ch + g * 3) g 3 1 1 w4) c4 = Inr t4"
    unfolding c(16) by (rule spec_conv_eq[OF c(15)]) simp
  have s5: "spec_conv (Conv2d (ch + g * 4) ch 3 1 1 w5) c5 = Inr t5"
    unfolding t5_def by (rule spec_conv_eq[OF c(20)]) simp
  note a = act[OF c(3)] act[OF c(8)] act[OF c(13)] act[OF c(18)]
  have q2: "spec_concat_channels [x, act t1] = Inr c2"
    unfolding c(4)[symmetric]
    by (rule spec_concat_eq[where cs = "[ch, g]"]) (use x a in simp_all)
  have q3: "spec_concat_channels [x, act t1, act t2] = Inr c3"
    unfolding c(9)[symmetric]
    by (rule spec_concat_eq[where cs = "[ch, g, g]"]) (use x a in simp_all)
  have q4: "spec_concat_channels [x, act t1, act t2, act t3] = Inr c4"
    unfolding c(14)[symmetric]
    by (rule spec_concat_eq[where cs = "[ch, g, g, g]"]) (use x a in simp_all)
  have q5: "spec_concat_channels [x, act t1, act t2, act t3, act t4] = Inr c5"
    unfolding c(19)[symmetric]
    by (rule spec_concat_eq[where cs = "[ch, g, g, g, g]"]) (use x a in simp_all)
  have sfin: "spec_add x (spec_scale t5 0.2) = Inr (add_same (torch_mul t5 0.2) x)"
    unfolding spec_scale_eq by (rule spec_add_eq[OF x m])
  have s: "spec_rdb (ResidualDenseBlock ch g (w1, w2, w3, w4, w5)) x
       = Inr (add_same (torch_mul t5 0.2) x)"
    unfolding spec_rdb_def ResidualDenseBlock_def LeakyReLU_def spec_leaky_relu_eq
    using s1 s2 s3 s4 s5 q2 q3 q4 q5 sfin
    by (simp add: sbind_def act_def Let_def)
  show thesis
    by (rule that[of c5]) (use c(20) v s t5_def in simp_all)
qed

section \<open>Values of the blocks\<close>

lemma rdb_value_shaped:
  assumes g: "0 < g" and x: "shaped n ch h w x"
  shows "\<exists>y. rdb_value (ResidualDenseBlock ch g ws) x = Inr y \<and>
             spec_rdb (ResidualDenseBlock ch g ws) x = Inr y \<and> shaped n ch h w y"
proof -
  obtain w1 w2 w3 w4 w5 where ws: "ws = (w1, w2, w3, w4, w5)" by (cases ws) auto
  from x have ch: "0 < ch" by (simp add: shaped_def)
  obtain c5 where c5: "shaped n (ch + g * 4) h w c5"
    "rdb_value (ResidualDenseBlock ch g (w1, w2, w3, w4, w5)) x
       = Inr (add_same (torch_mul (conv_out (Conv2d (ch + g * 4) ch 3 1 1 w5) c5) 0.2) x)"
    "spec_rdb (ResidualDenseBlock ch g (w1, w2, w3, w4, w5)) x
       = Inr (add_same (torch_mul (conv_out (Conv2d (ch + g * 4) ch 3 1 1 w5) c5) 0.2) x)"
    by (rule rdb_refines[OF g x])
  have "shaped n ch h w (conv_out (Conv2d (ch + g * 4) ch 3 1 1 w5) c5)"
    by (rule conv_same_shaped(2)[OF c5(1) ch]) simp
  then have "shaped n ch h w (add_same (torch_mul (conv_out (Conv2d (ch + g * 4) ch 3 1 1 w5) c5) 0.2) x)"
    by (intro add_same_shaped torch_mul_shaped x)
  with c5(2,3) show ?thesis unfolding ws by blast
qed

lemma leaky_relu_zeros: "F_leaky_relu (Val k) (zeros n c h w) = zeros n c h w"
proof -
  have "(if 0 < (0::elem) then 0 else 0 * Val k) = 0"
    by (simp add: zero_elem_def)
  then show ?thesis by (simp add: F_leaky_relu_def map_tensor_zeros)
qed

lemma rdb_value_zero:
  assumes g: "0 < g" and x: "shaped n ch h w x"
    and ok: "rdb_params_ok ch g ws" and z: "rdb_params_zero ws" and fin: "tensor_finite x"
  shows "rdb_value (ResidualDenseBlock ch g ws) x = Inr x"
proof -
  obtain w1 w2 w3 w4 w5 where ws: "ws = (w1, w2, w3, w4, w5)" by (cases ws) auto
  from ok have p: "params_ok (ch + g * 0) g 3 w1" "params_ok (ch + g * 1) g 3 w2"
    "params_ok (ch + g * 2) g 3 w3" "params_ok (ch + g * 3) g 3 w4"
    "params_ok (ch + g * 4) ch 3 w5"
    by (simp_all add: ws rdb_params_ok_def)
  from z have zs: "zero_params w1" "zero_params w2" "zero_params w3" "zero_params w4"
    "zero_params w5"
    by (simp_all add: ws rdb_params_zero_def)
  define act where "act = F_leaky_relu 0.2"
  have act: "\<And>c t. shaped n c h w t \<Longrightarrow> shaped n c h w (act t)"
    by (simp add: act_def F_leaky_relu_shaped)
  have actz: "act (zeros n g h w) = zeros n g h w"
    unfolding act_def elem_lit by (rule leaky_relu_zeros)
  from x have ch: "0 < ch" by (simp add: shaped_def)
  obtain t1 c2 t2 c3 t3 c4 t4 c5 where c:
    "t1 = conv_out (Conv2d (ch + g * 0) g 3 1 1 w1) x"
    "conv2d_forward (Conv2d (ch + g * 0) g 3 1 1 w1) x = Inr t1" "shaped n g h w t1"
    "cat_channels [x, act t1] = Inr c2" "shaped n (ch + g * 1) h w c2"
    "t2 = conv_out (Conv2d (ch + g * 1) g 3 1 1 w2) c2"
    "conv2d_forward (Conv2d (ch + g * 1) g 3 1 1 w2) c2 = Inr t2" "shaped n g h w t2"
    "cat_channels [x, act t1, act t2] = Inr c3" "shaped n (ch + g * 2) h w c3"
    "t3 = conv_out (Conv2d (ch + g * 2) g 3 1 1 w3) c3"
    "conv2d_forward (Conv2d (ch + g * 2) g 3 1 1 w3) c3 = Inr t3" "shaped n g h w t3"
    "cat_channels [x, act t1, act t2, act t3] = Inr c4" "shaped n (ch + g * 3) h w c4"
    "t4 = conv_out (Conv2d (ch + g * 3) g 3 1 1 w4) c4"
    "conv2d_forward (Conv2d (ch + g * 3) g 3 1 1 w4) c4 = Inr t4" "shaped n g h w t4"
    "cat_channels [x, act t1, act t2, act t3, act t4] = Inr c5" "shaped n (ch + g * 4) h w c5"
    by (rule rdb_chain[OF g x act])
  have x0: "shaped n (ch + g * 0) h w x" using x by simp
  have t1: "t1 = zeros n g h w"
    unfolding c(1) by (rule conv_out_zero[OF p(1) zs(1) x0 kernel_3 fin])
  have f2: "tensor_finite c2"
    by (rule cat_channels_finite[OF c(4)]) (simp add: t1 actz fin zeros_finite)
  have t2: "t2 = zeros n g h w"
    unfolding c(6) by (rule conv_out_zero[OF p(2) zs(2) c(5) kernel_3 f2])
  have f3: "tensor_finite c3"
    by (rule cat_channels_finite[OF c(9)]) (simp add: t1 t2 actz fin zeros_finite)
  have t3: "t3 = zeros n g h w"
    unfolding c(11) by (rule conv_out_zero[OF p(3) zs(3) c(10) kernel_3 f3])
  have f4: "tensor_finite c4"
    by (rule cat_channels_finite[OF c(14)]) (simp add: t1 t2 t3 actz fin zeros_finite)
  have t4: "t4 = zeros n g h w"
    unfolding c(16) by (rule conv_out_zero[OF p(4) zs(4) c(15) kernel_3 f4])
  have f5: "tensor_finite c5"
    by (rule cat_channels_finite[OF c(19)]) (simp add: t1 t2 t3 t4 actz fin zeros_finite)
  have t5: "conv_out (Conv2d (ch + g * 4) ch 3 1 1 w5) c5 = zeros n ch h w"
    by (rule conv_out_zero[OF p(5) zs(5) c(20) kernel_3 f5])
  have k5: "conv2d_forward (Conv2d (ch + g * 4) ch 3 1 1 w5) c5 = Inr (zeros n ch h w)"
    using conv_same_shaped(1)[OF c(20) ch kernel_3, of w5] by (simp only: t5)
  have m: "torch_mul (zeros n ch h w) 0.2 = zeros n ch h w"
    unfolding elem_lit torch_mul_def by (rule map_tensor_zeros) (simp add: zero_elem_def)
  have a: "add_same (zeros n ch h w) x = x"
    by (rule add_same_zeros) (use x in \<open>simp add: shaped_def\<close>)
  have fin5: "torch_add (zeros n ch h w) x = Inr x"
    using torch_add_same[OF zeros_shaped x] x a by (simp add: shaped_def)
  show ?thesis
    unfolding ws rdb_value_def ResidualDenseBlock_def LeakyReLU_def
    using c(2,4,7,9,12,14,17,19) k5 m fin5
    by (simp add: sbind_def act_def)
qed

lemma rrdb_outcome:
  assumes x: "x < length s"
  shows "outcome (ResidualResidualDenseBlock_forward self x s) s (rrdb_value self (s ! x))"
  unfolding ResidualResidualDenseBlock_forward_def rrdb_value_def Let_def
proof (rule outcome_seq[where m = "ResidualDenseBlock_forward (rdb_1 self) x"])
  show "outcome (ResidualDenseBlock_forward (rdb_1 self) x s) s (rdb_value (rdb_1 self) (s ! x))"
    by (rule rdb_outcome[OF x])
next
  fix p1 s1
  assume p1: "p1 < length s1" and e1: "extends s s1"
  show "outcome (seq (ResidualDenseBlock_forward (rdb_2 self) p1)
          (\<lambda>out. seq (ResidualDenseBlock_forward (rdb_3 self) out)
             (\<lambda>out. seq (mul_call out 0.2) (\<lambda>out. add_call out x))) s1) s1
        (sbind (rdb_value (rdb_2 self) (s1 ! p1))
          (\<lambda>o2. sbind (rdb_value (rdb_3 self) o2) (\<lambda>o3. torch_add (torch_mul o3 0.2) (s ! x))))"
  proof (rule outcome_seq[where m = "ResidualDenseBlock_forward (rdb_2 self) p1"])
    show "outcome (ResidualDenseBlock_forward (rdb_2 self) p1 s1) s1
            (rdb_value (rdb_2 self) (s1 ! p1))"
      by (rule rdb_outcome[OF p1])
  next
    fix p2 s2
    assume p2: "p2 < length s2" and e2: "extends s1 s2"
    show "outcome (seq (ResidualDenseBlock_forward (rdb_3 self) p2)
             (\<lambda>out. seq (mul_call out 0.2) (\<lambda>out. add_call out x)) s2) s2
          (sbind (rdb_value (rdb_3 self) (s2 ! p2)) (\<lambda>o3. torch_add (torch_mul o3 0.2) (s ! x)))"
    proof (rule outcome_seq[where m = "ResidualDenseBlock_forward (rdb_3 self) p2"])
      show "outcome (ResidualDenseBlock_forward (rdb_3 self) p2 s2) s2
              (rdb_value (rdb_3 self) (s2 ! p2))"
        by (rule rdb_outcome[OF p2])
    next
      fix p3 s3
      assume p3: "p3 < length s3" and e3: "extends s2 s3"
      from e1 e2 e3 have e: "extends s s3" by (blast intro: extends_trans)
      from extends_nth[OF e x] have xs: "s3 ! x = s ! x" .
      from e x have xl: "x < length s3" by (simp add: extends_def)
      show "outcome (seq (mul_call p3 0.2) (\<lambda>out. add_call out x) s3) s3
              (torch_add (torch_mul (s3 ! p3) 0.2) (s ! x))"
        using p3 xl xs
        by (simp add: outcome_def extends_def seq_def mul_call_def add_call_def alloc_def
            nth_append split: sum.splits)
    qed
  qed
qed

lemma rrdb_value_shaped:
  assumes g: "0 < g" and x: "shaped n ch h w x"
  shows "\<exists>y1 y2 y3. rdb_value (ResidualDenseBlock ch g ws1) x = Inr y1 \<and>
           rdb_value (ResidualDenseBlock ch g ws2) y1 = Inr y2 \<and>
           rdb_value (ResidualDenseBlock ch g ws3) y2 = Inr y3 \<and>
           shaped n ch h w y3 \<and>
           rrdb_value (ResidualResidualDenseBlock ch g ws1 ws2 ws3) x
             = Inr (add_same (torch_mul y3 0.2) x) \<and>
           spec_rrdb (ResidualResidualDenseBlock ch g ws1 ws2 ws3) x
             = Inr (add_same (torch_mul y3 0.2) x)"
proof -
  from rdb_value_shaped[OF g x, of ws1] obtain y1 where
    y1: "rdb_value (ResidualDenseBlock ch g ws1) x = Inr y1"
      "spec_rdb (ResidualDenseBlock ch g ws1) x = Inr y1" "shaped n ch h w y1" by blast
  from rdb_value_shaped[OF g y1(3), of ws2] obtain y2 where
    y2: "rdb_value (ResidualDenseBlock ch g ws2) y1 = Inr y2"
      "spec_rdb (ResidualDenseBlock ch g ws2) y1 = Inr y2" "shaped n ch h w y2" by blast
  from rdb_value_shaped[OF g y2(3), of ws3] obtain y3 where
    y3: "rdb_value (ResidualDenseBlock ch g ws3) y2 = Inr y3"
      "spec_rdb (ResidualDenseBlock ch g ws3) y2 = Inr y3" "shaped n ch h w y3" by blast
  have m: "shaped n ch h w (torch_mul y3 0.2)" by (rule torch_mul_shaped[OF y3(3)])
  have v: "rrdb_value (ResidualResidualDenseBlock ch g ws1 ws2 ws3) x
             = Inr (add_same (torch_mul y3 0.2) x)"
    using y1(1) y2(1) y3(1) torch_add_same[OF m x]
    by (simp add: rrdb_value_def ResidualResidualDenseBlock_def sbind_def)
  have sp: "spec_rrdb (ResidualResidualDenseBlock ch g ws1 ws2 ws3) x
             = Inr (add_same (torch_mul y3 0.2) x)"
    using y1(2) y2(2) y3(2) spec_add_eq[OF x m]
    by (simp add: spec_rrdb_def ResidualResidualDenseBlock_def sbind_def spec_scale_eq)
  from y1(1) y2(1) y3(1,3) v sp show ?thesis by blast
qed

lemma add_same_map_self:
  "add_same (map_tensor f t) t = map_tensor (\<lambda>v. f v + v) t"
  unfolding add_same_def map_tensor_def
  by (simp add: zip_map1 zip_same_conv_map case_prod_unfold comp_def)

lemma rrdb_value_zero:
  assumes g: "0 < g" and x: "shaped n ch h w x"
    and ok: "rdb_params_ok ch g ws1" "rdb_params_ok ch g ws2" "rdb_params_ok ch g ws3"
    and z: "rdb_params_zero ws1" "rdb_params_zero ws2" "rdb_params_zero ws3"
    and fin: "tensor_finite x"
  shows "rrdb_value (ResidualResidualDenseBlock ch g ws1 ws2 ws3) x
           = Inr (map_tensor (\<lambda>v. v * 0.2 + v) x)"
proof -
  note r1 = rdb_value_zero[OF g x ok(1) z(1) fin]
  note r2 = rdb_value_zero[OF g x ok(2) z(2) fin]
  note r3 = rdb_value_zero[OF g x ok(3) z(3) fin]
  have m: "shaped n ch h w (torch_mul x 0.2)" by (rule torch_mul_shaped[OF x])
  have "rrdb_value (ResidualResidualDenseBlock ch g ws1 ws2 ws3) x
          = Inr (add_same (torch_mul x 0.2) x)"
    using r1 r2 r3 torch_add_same[OF m x]
    by (simp add: rrdb_value_def ResidualResidualDenseBlock_def sbind_def)
  then show ?thesis by (simp add: torch_mul_def add_same_map_self)
qed

lemma rfdb_outcome:
  assumes x: "x < length s"
  shows "outcome (ResidualFeatureDistillationBlock_forward self x s) s (rfdb_value self (s ! x))"
  unfolding ResidualFeatureDistillationBlock_forward_def rfdb_value_def
proof (rule outcome_seq[where m = "rfdb_distil self x"])
  show "outcome (rfdb_distil self x s) s (rfdb_distil_value self (s ! x))"
    by (rule rfdb_distil_outcome[OF x])
next
  fix p and s' :: store
  assume "p < length s'"
  then show "outcome (seq (conv2d_call (rfdb_conv_5 self) p) (esa_call (esa self)) s') s'
          (sbind (conv2d_forward (rfdb_conv_5 self) (s' ! p)) (esa self))"
    by (simp add: outcome_def extends_def seq_def conv2d_call_def esa_call_def alloc_def
        sbind_def nth_append split: sum.splits)
qed

lemma outcome_frame:
  assumes "outcome r s v" "i < length s"
  shows "i < length (snd r) \<and> snd r ! i = s ! i"
proof -
  from assms(1) have "extends s (snd r)"
    by (auto simp: outcome_def split: prod.splits sum.splits)
  with assms(2) show ?thesis
    using extends_nth[of s "snd r" i] by (simp add: extends_def)
qed

lemma ex_zero_rdb_params_zero: "rdb_params_zero ex_zero_rdb_params"
  by (simp add: ex_zero_rdb_params_def rdb_params_zero_def zero_params_def k_zero_def)

section \<open>The value of the distillation block\<close>

lemma residual_stage:
  assumes r: "shaped n ch h w r"
  shows "conv2d_forward (Conv2d ch ch 3 1 1 wb) r = Inr (conv_out (Conv2d ch ch 3 1 1 wb) r)"
    and "spec_conv (Conv2d ch ch 3 1 1 wb) r = Inr (conv_out (Conv2d ch ch 3 1 1 wb) r)"
    and "torch_add (conv_out (Conv2d ch ch 3 1 1 wb) r) r
           = Inr (add_same (conv_out (Conv2d ch ch 3 1 1 wb) r) r)"
    and "spec_add (conv_out (Conv2d ch ch 3 1 1 wb) r) r
           = Inr (add_same (conv_out (Conv2d ch ch 3 1 1 wb) r) r)"
    and "shaped n ch h w (add_same (conv_out (Conv2d ch ch 3 1 1 wb) r) r)"
proof -
  from r have ch: "0 < ch" by (simp add: shaped_def)
  note k = conv_same_shaped[OF r ch kernel_3, of wb]
  show "conv2d_forward (Conv2d ch ch 3 1 1 wb) r = Inr (conv_out (Conv2d ch ch 3 1 1 wb) r)"
    by (rule k(1))
  show "spec_conv (Conv2d ch ch 3 1 1 wb) r = Inr (conv_out (Conv2d ch ch 3 1 1 wb) r)"
    by (rule spec_conv_eq[OF r]) simp
  show "torch_add (conv_out (Conv2d ch ch 3 1 1 wb) r) r
          = Inr (add_same (conv_out (Conv2d ch ch 3 1 1 wb) r) r)"
    by (rule torch_add_same[OF k(2) r])
  show "spec_add (conv_out (Conv2d ch ch 3 1 1 wb) r) r
          = Inr (add_same (conv_out (Conv2d ch ch 3 1 1 wb) r) r)"
    using spec_add_eq[OF k(2) r] by (simp add: add_same_commute)
  show "shaped n ch h w (add_same (conv_out (Conv2d ch ch 3 1 1 wb) r) r)"
    by (rule add_same_shaped[OF k(2) r])
qed

lemma distil_stage:
  assumes r: "shaped n ch h w r" and dc: "0 < dc" and k: "k = 2 * pad + 1"
  shows "conv2d_forward (Conv2d ch dc k 1 pad wb) r = Inr (conv_out (Conv2d ch dc k 1 pad wb) r)"
    and "spec_conv (Conv2d ch dc k 1 pad wb) r = Inr (conv_out (Conv2d ch dc k 1 pad wb) r)"
    and "shaped n dc h w (conv_out (Conv2d ch dc k 1 pad wb) r)"
  using conv_same_shaped[OF r dc k] spec_conv_eq[OF r k] by simp_all

lemma rfdb_refines:
  assumes dc: "0 < ch div 2" and x: "shaped n ch h w x"
  obtains k where
    "shaped n (ch div 2 * 4) h w k"
    "rfdb_distil_value (ResidualFeatureDistillationBlock ch (w1d, w1r, w2d, w2r, w3d, w3r, w4, w5) gate) x = Inr k"
    "shaped n ch h w (conv_out (Conv2d (ch div 2 * 4) ch 1 1 0 w5) k)"
    "rfdb_value (ResidualFeatureDistillationBlock ch (w1d, w1r, w2d, w2r, w3d, w3r, w4, w5) gate) x
       = gate (conv_out (Conv2d (ch div 2 * 4) ch 1 1 0 w5) k)"
    "spec_rfdb (ResidualFeatureDistillationBlock ch (w1d, w1r, w2d, w2r, w3d, w3r, w4, w5) gate) x
       = gate (conv_out (Conv2d (ch div 2 * 4) ch 1 1 0 w5) k)"
proof -
  define act where "act = F_leaky_relu 0.05"
  have act: "\<And>c t. shaped n c h w t \<Longrightarrow> shaped n c h w (act t)"
    by (simp add: act_def F_leaky_relu_shaped)
  from x have ch: "0 < ch" by (simp add: shaped_def)
  define d1 where "d1 = conv_out (Conv2d ch (ch div 2) 1 1 0 w1d) x"
  define t1 where "t1 = conv_out (Conv2d ch ch 3 1 1 w1r) x"
  define u1 where "u1 = add_same t1 x"
  note D1 = distil_stage[OF x dc kernel_1, of w1d, folded d1_def]
  note R1 = residual_stage[OF x, of w1r, folded t1_def, folded u1_def]
  note r1 = act[OF R1(5)]
  define d2 where "d2 = conv_out (Conv2d ch (ch div 2) 1 1 0 w2d) (act u1)"
  define t2 where "t2 = conv_out (Conv2d ch ch 3 1 1 w2r) (act u1)"
  define u2 where "u2 = add_same t2 (act u1)"
  note D2 = distil_stage[OF r1 dc kernel_1, of w2d, folded d2_def]
  note R2 = residual_stage[OF r1, of w2r, folded t2_def, folded u2_def]
  note r2 = act[OF R2(5)]
  define d3 where "d3 = conv_out (Conv2d ch (ch div 2) 1 1 0 w3d) (act u2)"
  define t3 where "t3 = conv_out (Conv2d ch ch 3 1 1 w3r) (act u2)"
  define u3 where "u3 = add_same t3 (act u2)"
  note D3 = distil_stage[OF r2 dc kernel_1, of w3d, folded d3_def]
  note R3 = residual_stage[OF r2, of w3r, folded t3_def, folded u3_def]
  note r3 = act[OF R3(5)]
  define t4 where "t4 = conv_out (Conv2d ch (ch div 2) 3 1 1 w4) (act u3)"
  note D4 = distil_stage[OF r3 dc kernel_3, of w4, folded t4_def]
  have l: "list_all2 (\<lambda>c t. shaped n c h w t) [ch div 2, ch div 2, ch div 2, ch div 2]
             [act d1, act d2, act d3, act t4]"
    using act[OF D1(3)] act[OF D2(3)] act[OF D3(3)] act[OF D4(3)] by simp
  then obtain k where k: "cat_channels [act d1, act d2, act d3, act t4] = Inr k"
    "shaped n (sum_list [ch div 2, ch div 2, ch div 2, ch div 2]) h w k"
    by (rule cat_shaped) simp_all
  have "sum_list [ch div 2, ch div 2, ch div 2, ch div 2] = ch div 2 * 4" by simp
  with k(2) have ks: "shaped n (ch div 2 * 4) h w k" by (simp only:)
  have sk: "spec_concat_channels [act d1, act d2, act d3, act t4] = Inr k"
    unfolding k(1)[symmetric] by (rule spec_concat_eq[OF l]) simp
  note F = distil_stage[OF ks ch kernel_1, of w5]
  have dv: "rfdb_distil_value (ResidualFeatureDistillationBlock ch (w1d, w1r, w2d, w2r, w3d, w3r, w4, w5) gate) x = Inr k"
    unfolding rfdb_distil_value_def ResidualFeatureDistillationBlock_def LeakyReLU_def
    using D1(1) R1(1,3) D2(1) R2(1,3) D3(1) R3(1,3) D4(1) k(1)
    by (simp add: sbind_def Let_def act_def)
  have v: "rfdb_value (ResidualFeatureDistillationBlock ch (w1d, w1r, w2d, w2r, w3d, w3r, w4, w5) gate) x
       = gate (conv_out (Conv2d (ch div 2 * 4) ch 1 1 0 w5) k)"
    unfolding rfdb_value_def dv
    using F(1) by (simp add: sbind_def ResidualFeatureDistillationBlock_def Let_def)
  have sp: "spec_rfdb (ResidualFeatureDistillationBlock ch (w1d, w1r, w2d, w2r, w3d, w3r, w4, w5) gate) x
       = gate (conv_out (Conv2d (ch div 2 * 4) ch 1 1 0 w5) k)"
    unfolding spec_rfdb_def ResidualFeatureDistillationBlock_def spec_leaky_relu_eq
    using D1(2) R1(2,4) D2(2) R2(2,4) D3(2) R3(2,4) D4(2) sk F(2)
    by (simp add: sbind_def Let_def act_def)
  show thesis
    by (rule that[OF ks dv F(3) v sp])
qed

section \<open>Reading the result of a run\<close>

lemma value_of_outcome:
  assumes "outcome r s v"
  shows "value_of r = v"
  using assms by (auto simp: outcome_def value_of_def split: prod.splits sum.splits)

lemma wf_shaped: "tensor_wf t \<Longrightarrow> dimC t = c \<Longrightarrow> shaped (dimN t) c (dimH t) (dimW t) t"
  by (auto simp: tensor_wf_shaped)

lemma ex_input_wf: "tensor_wf ex_input" "dimC ex_input = 1"
  by (simp_all add: ex_input_def tensor_wf_def has_shape_def dimN_def dimC_def dimH_def dimW_def)

lemma ex_input_finite: "tensor_finite ex_input"
  by (simp add: ex_input_def tensor_finite_def is_finite_def elem_eval)

lemma ex_rdb_params_ok: "rdb_params_ok 1 1 ex_rdb_params"
  by (simp add: ex_rdb_params_def rdb_params_ok_def params_ok_def has_shape_def
      k_id_def k_col_def k_zero_def)

lemma ex_zero_rdb_params_ok: "rdb_params_ok 1 1 ex_zero_rdb_params"
  by (simp add: ex_zero_rdb_params_def rdb_params_ok_def params_ok_def has_shape_def k_zero_def)

section \<open>Example data and broadcasting\<close>

lemma ex_input2_wf: "tensor_wf ex_input2" "dimC ex_input2 = 2"
  by (simp_all add: ex_input2_def tensor_wf_def has_shape_def dimN_def dimC_def dimH_def dimW_def)

lemma ex_rfdb_params_ok: "rfdb_params_ok 2 ex_rfdb_params"
  by (simp add: ex_rfdb_params_def rfdb_params_ok_def params_ok_def has_shape_def
      k_id_def k_zero_def)

lemma ex_input64_shaped: "shaped 1 64 1 1 ex_input64"
  by (simp add: ex_input64_def shaped_def has_shape_def list_all_iff)

lemma ex_input64_wf: "tensor_wf ex_input64" "dimC ex_input64 = 64"
  using shaped_wf[OF ex_input64_shaped] shaped_dims[OF ex_input64_shaped] by simp_all

lemma ex_rfdb_params64_ok: "rfdb_params_ok 64 ex_rfdb_params64"
  by (simp add: ex_rfdb_params64_def rfdb_params_ok_def params_ok_def has_shape_def
      list_all_iff k_zero_def)

lemma outcome_Inr:
  assumes "outcome r s (Inr k)"
  shows "\<exists>p s'. r = (Inr p, s') \<and> p < length s' \<and> s' ! p = k"
  using assms by (cases r) (auto simp: outcome_def split: sum.splits)

lemma inplace_overwrites_its_argument:
  "leaky_relu_call (LeakyReLU 0.2 True) 0 [ex_input] = (Inr 0, [[[[[1, - (2 / 5)], [3, 4]]]]])"
  by (simp add: leaky_relu_call_def LeakyReLU_def F_leaky_relu_def map_tensor_def ex_input_def
      elem_eval)

lemma expand_length:
  assumes "length xs = n \<or> length xs = 1"
  shows "length (expand n xs) = n"
proof (cases xs)
  case Nil
  with assms show ?thesis by (auto simp: expand_def)
next
  case (Cons y ys)
  with assms show ?thesis by (cases ys) (auto simp: expand_def)
qed

lemma set_expand: "set (expand n xs) \<subseteq> set xs"
  by (auto simp: expand_def split: list.splits)

lemma expand_tensor_shape:
  assumes "has_shape na ca ha wa a"
    "na = n \<or> na = 1" "ca = c \<or> ca = 1" "ha = h \<or> ha = 1" "wa = w \<or> wa = 1"
  shows "has_shape n c h w (expand_tensor n c h w a)"
proof -
  have row: "length (expand w r) = w" if "length r = wa" for r :: "elem list"
    using that assms(5) by (intro expand_length) auto
  have plane: "length (expand h (map (expand w) p)) = h \<and>
      (\<forall>r\<in>set (expand h (map (expand w) p)). length r = w)"
    if "length p = ha" "\<forall>r\<in>set p. length r = wa" for p :: plane
  proof
    show "length (expand h (map (expand w) p)) = h"
      using that(1) assms(4) by (intro expand_length) auto
    show "\<forall>r\<in>set (expand h (map (expand w) p)). length r = w"
      using set_expand[of h "map (expand w) p"] that(2) row by auto
  qed
  have image: "length (expand c (map (\<lambda>p. expand h (map (expand w) p)) img)) = c \<and>
      (\<forall>p\<in>set (expand c (map (\<lambda>p. expand h (map (expand w) p)) img)).
          length p = h \<and> (\<forall>r\<in>set p. length r = w))"
    if "length img = ca" "\<forall>p\<in>set img. length p = ha \<and> (\<forall>r\<in>set p. length r = wa)"
    for img :: image
  proof
    show "length (expand c (map (\<lambda>p. expand h (map (expand w) p)) img)) = c"
      using that(1) assms(3) by (intro expand_length) auto
    show "\<forall>p\<in>set (expand c (map (\<lambda>p. expand h (map (expand w) p)) img)).
          length p = h \<and> (\<forall>r\<in>set p. length r = w)"
    proof
      fix p assume "p \<in> set (expand c (map (\<lambda>p. expand h (map (expand w) p)) img))"
      with set_expand[of c "map (\<lambda>p. expand h (map (expand w) p)) img"]
      obtain q where "q \<in> set img" "p = expand h (map (expand w) q)" by auto
      with that(2) plane[of q] show "length p = h \<and> (\<forall>r\<in>set p. length r = w)" by auto
    qed
  qed
  let ?f = "\<lambda>img. expand c (map (\<lambda>p. expand h (map (expand w) p)) img)"
  have len: "length (expand n (map ?f a)) = n"
    using assms(1,2) by (intro expand_length) (auto simp: has_shape_def)
  have "\<forall>img\<in>set (expand n (map ?f a)). length img = c \<and>
          (\<forall>p\<in>set img. length p = h \<and> (\<forall>r\<in>set p. length r = w))"
  proof
    fix img assume "img \<in> set (expand n (map ?f a))"
    with set_expand[of n "map ?f a"] obtain j where j: "j \<in> set a" "img = ?f j" by auto
    from assms(1) j(1) have "length j = ca" "\<forall>p\<in>set j. length p = ha \<and> (\<forall>r\<in>set p. length r = wa)"
      by (auto simp: has_shape_def list_all_iff)
    from image[OF this] j(2)
    show "length img = c \<and> (\<forall>p\<in>set img. length p = h \<and> (\<forall>r\<in>set p. length r = w))" by simp
  qed
  with len show ?thesis
    unfolding expand_tensor_def has_shape_def list_all_iff by simp
qed

lemma torch_add_broadcast_shape:
  assumes a: "tensor_wf a" and b: "tensor_wf b" and r: "torch_add a b = Inr r"
  shows "tensor_wf r \<and> dimN r = max (dimN a) (dimN b) \<and> dimC r = max (dimC a) (dimC b) \<and>
         dimH r = max (dimH a) (dimH b) \<and> dimW r = max (dimW a) (dimW b)"
proof -
  let ?n = "max (dimN a) (dimN b)" and ?c = "max (dimC a) (dimC b)"
  let ?h = "max (dimH a) (dimH b)" and ?w = "max (dimW a) (dimW b)"
  from r have bc: "broadcastable (dimN a) (dimN b)" "broadcastable (dimC a) (dimC b)"
    "broadcastable (dimH a) (dimH b)" "broadcastable (dimW a) (dimW b)"
    and rr: "r = add_same (expand_tensor ?n ?c ?h ?w a) (expand_tensor ?n ?c ?h ?w b)"
    by (auto simp: torch_add_def Let_def split: if_splits)
  from a b have pos: "0 < dimN a" "0 < dimC a" "0 < dimH a" "0 < dimW a"
      "0 < dimN b" "0 < dimC b" "0 < dimH b" "0 < dimW b"
    and ha: "has_shape (dimN a) (dimC a) (dimH a) (dimW a) a"
    and hb: "has_shape (dimN b) (dimC b) (dimH b) (dimW b) b"
    by (simp_all add: tensor_wf_def)
  have ea: "has_shape ?n ?c ?h ?w (expand_tensor ?n ?c ?h ?w a)"
    by (rule expand_tensor_shape[OF ha]) (use bc pos in \<open>auto simp: broadcastable_def max_def\<close>)
  have eb: "has_shape ?n ?c ?h ?w (expand_tensor ?n ?c ?h ?w b)"
    by (rule expand_tensor_shape[OF hb]) (use bc pos in \<open>auto simp: broadcastable_def max_def\<close>)
  from ea eb pos have "shaped ?n ?c ?h ?w r"
    unfolding rr by (intro add_same_shaped) (auto simp: shaped_def)
  from shaped_wf[OF this] shaped_dims[OF this] show ?thesis by simp
qed

lemma bidx_less: "d = n \<or> d = 1 \<Longrightarrow> i < n \<Longrightarrow> bidx d i < d"
  by (auto simp: bidx_def)

lemma expand_nth:
  assumes "length xs = n \<or> length xs = 1" "i < n"
  shows "expand n xs ! i = xs ! bidx (length xs) i"
proof (cases xs)
  case Nil
  with assms show ?thesis by simp
next
  case (Cons y ys)
  with assms show ?thesis by (cases ys) (auto simp: expand_def bidx_def)
qed

lemma expand_map_nth:
  assumes "length xs = n \<or> length xs = 1" "i < n"
  shows "expand n (map f xs) ! i = f (xs ! bidx (length xs) i)"
proof -
  from assms have "bidx (length xs) i < length xs" by (intro bidx_less) auto
  with expand_nth[of "map f xs" n i] assms show ?thesis by simp
qed

lemma expand_tensor_nth:
  assumes hs: "has_shape na ca ha wa a"
    and d: "na = n \<or> na = 1" "ca = c \<or> ca = 1" "ha = h \<or> ha = 1" "wa = w \<or> wa = 1"
    and i: "i < n" "j < c" "y < h" "x < w"
  shows "expand_tensor n c h w a ! i ! j ! y ! x
           = a ! bidx na i ! bidx ca j ! bidx ha y ! bidx wa x"
proof -
  from hs have la: "length a = na" by (simp add: has_shape_def)
  have bi: "bidx na i < na" "bidx ca j < ca" "bidx ha y < ha" "bidx wa x < wa"
    by (rule bidx_less[OF d(1) i(1)], rule bidx_less[OF d(2) i(2)],
        rule bidx_less[OF d(3) i(3)], rule bidx_less[OF d(4) i(4)])
  note ls = has_shape_nth[OF hs bi(1)]
  let ?img = "a ! bidx na i"
  let ?p = "?img ! bidx ca j"
  let ?r = "?p ! bidx ha y"
  have 1: "expand_tensor n c h w a ! i
      = expand c (map (\<lambda>p. expand h (map (\<lambda>r. expand w r) p)) ?img)"
    unfolding expand_tensor_def using expand_map_nth[of a n i] la d(1) i(1) by simp
  have 2: "expand c (map (\<lambda>p. expand h (map (\<lambda>r. expand w r) p)) ?img) ! j
      = expand h (map (\<lambda>r. expand w r) ?p)"
    using expand_map_nth[of ?img c j] ls(1) d(2) i(2) by simp
  have 3: "expand h (map (\<lambda>r. expand w r) ?p) ! y = expand w ?r"
    using expand_map_nth[of ?p h y] ls(2)[OF bi(2)] d(3) i(3) by simp
  have 4: "expand w ?r ! x = ?r ! bidx wa x"
    using expand_nth[of ?r w x] ls(3)[OF bi(2,3)] d(4) i(4) by simp
  show ?thesis by (simp only: 1 2 3 4)
qed

lemma add_same_nth:
  assumes "has_shape n c h w a" "has_shape n c h w b" "i < n" "j < c" "y < h" "x < w"
  shows "add_same a b ! i ! j ! y ! x = a ! i ! j ! y ! x + b ! i ! j ! y ! x"
proof -
  note la = has_shape_nth[OF assms(1,3)] and lb = has_shape_nth[OF assms(2,3)]
  from assms have l0: "length a = n" "length b = n" by (simp_all add: has_shape_def)
  show ?thesis
    unfolding add_same_def
    using assms(3-6) l0 la(1) lb(1) la(2)[OF assms(4)] lb(2)[OF assms(4)]
      la(3)[OF assms(4,5)] lb(3)[OF assms(4,5)]
    by simp
qed

lemma torch_add_broadcast_value:
  assumes a: "tensor_wf a" and b: "tensor_wf b"
    and bc: "broadcastable (dimN a) (dimN b)" "broadcastable (dimC a) (dimC b)"
      "broadcastable (dimH a) (dimH b)" "broadcastable (dimW a) (dimW b)"
  shows "\<exists>r. torch_add a b = Inr r \<and>
     (\<forall>n < max (dimN a) (dimN b). \<forall>c < max (dimC a) (dimC b).
      \<forall>y < max (dimH a) (dimH b). \<forall>x < max (dimW a) (dimW b).
        r ! n ! c ! y ! x =
          a ! bidx (dimN a) n ! bidx (dimC a) c ! bidx (dimH a) y ! bidx (dimW a) x +
          b ! bidx (dimN b) n ! bidx (dimC b) c ! bidx (dimH b) y ! bidx (dimW b) x)"
proof -
  let ?n = "max (dimN a) (dimN b)" and ?c = "max (dimC a) (dimC b)"
  let ?h = "max (dimH a) (dimH b)" and ?w = "max (dimW a) (dimW b)"
  let ?A = "expand_tensor ?n ?c ?h ?w a" and ?B = "expand_tensor ?n ?c ?h ?w b"
  from a b have pos: "0 < dimN a" "0 < dimC a" "0 < dimH a" "0 < dimW a"
      "0 < dimN b" "0 < dimC b" "0 < dimH b" "0 < dimW b"
    and ha: "has_shape (dimN a) (dimC a) (dimH a) (dimW a) a"
    and hb: "has_shape (dimN b) (dimC b) (dimH b) (dimW b) b"
    by (simp_all add: tensor_wf_def)
  have da: "dimN a = ?n \<or> dimN a = 1" "dimC a = ?c \<or> dimC a = 1"
    "dimH a = ?h \<or> dimH a = 1" "dimW a = ?w \<or> dimW a = 1"
    using bc pos by (auto simp: broadcastable_def max_def)
  have db: "dimN b = ?n \<or> dimN b = 1" "dimC b = ?c \<or> dimC b = 1"
    "dimH b = ?h \<or> dimH b = 1" "dimW b = ?w \<or> dimW b = 1"
    using bc pos by (auto simp: broadcastable_def max_def)
  have ea: "has_shape ?n ?c ?h ?w ?A" by (rule expand_tensor_shape[OF ha da])
  have eb: "has_shape ?n ?c ?h ?w ?B" by (rule expand_tensor_shape[OF hb db])
  have r: "torch_add a b = Inr (add_same ?A ?B)"
    using bc by (simp add: torch_add_def Let_def)
  have v: "add_same ?A ?B ! n ! c ! y ! x =
          a ! bidx (dimN a) n ! bidx (dimC a) c ! bidx (dimH a) y ! bidx (dimW a) x +
          b ! bidx (dimN b) n ! bidx (dimC b) c ! bidx (dimH b) y ! bidx (dimW b) x"
    if "n < ?n" "c < ?c" "y < ?h" "x < ?w" for n c y x
    using add_same_nth[OF ea eb that] expand_tensor_nth[OF ha da that]
      expand_tensor_nth[OF hb db that]
    by (simp only:)
  show ?thesis
    by (rule exI[of _ "add_same ?A ?B"]) (use r v in blast)
qed

section \<open>The claims\<close>

text \<open>
  C1.  For every input tensor whose channel count is \<open>channels\<close>, the forward function of
  \<open>ResidualDenseBlock\<close> returns, and what it returns is the value of the five-stage dense
  pipeline of the specification: four stages \<open>LeakyReLU(Conv_i(concat(x, out_1, ...)), 0.2)\<close>,
  a fifth convolution without activation, and \<open>x + 0.2 * out_5\<close>.
\<close>

theorem rdb_forward_is_dense_pipeline:
  assumes "x < length s" "tensor_wf (s ! x)" "dimC (s ! x) = channels" "0 < growth_channels"
    "rdb_params_ok channels growth_channels ws"
  shows "\<exists>y. value_of (ResidualDenseBlock_forward
                 (ResidualDenseBlock channels growth_channels ws) x s) = Inr y
           \<and> spec_rdb (ResidualDenseBlock channels growth_channels ws) (s ! x) = Inr y"
proof -
  obtain w1 w2 w3 w4 w5 where ws: "ws = (w1, w2, w3, w4, w5)" by (cases ws) auto
  from assms(2,3) have sh: "shaped (dimN (s ! x)) channels (dimH (s ! x)) (dimW (s ! x)) (s ! x)"
    by (rule wf_shaped)
  from rdb_refines[OF assms(4) sh, of w1 w2 w3 w4 w5]
  obtain y where "rdb_value (ResidualDenseBlock channels growth_channels ws) (s ! x) = Inr y"
    "spec_rdb (ResidualDenseBlock channels growth_channels ws) (s ! x) = Inr y"
    unfolding ws by metis
  with value_of_outcome[OF rdb_outcome[OF assms(1)]] show ?thesis by auto
qed

theorem rdb_forward_is_dense_pipeline_witness:
  "(0::nat) < length [ex_input] \<and> tensor_wf ([ex_input] ! 0) \<and> dimC ([ex_input] ! 0) = 1 \<and>
   (0::nat) < 1 \<and> rdb_params_ok 1 1 ex_rdb_params \<and>
   (\<exists>y. value_of (ResidualDenseBlock_forward (ResidualDenseBlock 1 1 ex_rdb_params) 0 [ex_input])
            = Inr y
        \<and> spec_rdb (ResidualDenseBlock 1 1 ex_rdb_params) ([ex_input] ! 0) = Inr y)"
proof -
  have h1: "(0::nat) < length [ex_input]" by simp
  have h2: "tensor_wf ([ex_input] ! 0)" by (simp add: ex_input_wf)
  have h3: "dimC ([ex_input] ! 0) = 1" by (simp add: ex_input_wf)
  have h4: "(0::nat) < 1" by simp
  from rdb_forward_is_dense_pipeline[OF h1 h2 h3 h4 ex_rdb_params_ok] h1 h2 h3 ex_rdb_params_ok
  show ?thesis by simp
qed

text \<open>
  C2.  The forward function of \<open>ResidualResidualDenseBlock\<close> returns
  \<open>x + 0.2 * RDB3(RDB2(RDB1(x)))\<close>: three dense blocks with their own parameters applied
  in sequence, each with its inner scale 0.2, and the outer scale 0.2 applied once around
  the stack.
\<close>

theorem rrdb_forward_is_scaled_stack:
  assumes "x < length s" "tensor_wf (s ! x)" "dimC (s ! x) = channels" "0 < growth_channels"
    "rdb_params_ok channels growth_channels ws1" "rdb_params_ok channels growth_channels ws2"
    "rdb_params_ok channels growth_channels ws3"
  shows "\<exists>y. value_of (ResidualResidualDenseBlock_forward
                 (ResidualResidualDenseBlock channels growth_channels ws1 ws2 ws3) x s) = Inr y
           \<and> spec_rrdb (ResidualResidualDenseBlock channels growth_channels ws1 ws2 ws3) (s ! x)
               = Inr y"
proof -
  from assms(2,3) have sh: "shaped (dimN (s ! x)) channels (dimH (s ! x)) (dimW (s ! x)) (s ! x)"
    by (rule wf_shaped)
  from rrdb_value_shaped[OF assms(4) sh, of ws1 ws2 ws3]
  obtain y where
    "rrdb_value (ResidualResidualDenseBlock channels growth_channels ws1 ws2 ws3) (s ! x) = Inr y"
    "spec_rrdb (ResidualResidualDenseBlock channels growth_channels ws1 ws2 ws3) (s ! x) = Inr y"
    by blast
  with value_of_outcome[OF rrdb_outcome[OF assms(1)]] show ?thesis by auto
qed

theorem rrdb_forward_is_scaled_stack_witness:
  "(0::nat) < length [ex_input] \<and> tensor_wf ([ex_input] ! 0) \<and> dimC ([ex_input] ! 0) = 1 \<and>
   (0::nat) < 1 \<and> rdb_params_ok 1 1 ex_rdb_params \<and> rdb_params_ok 1 1 ex_zero_rdb_params \<and>
   (\<exists>y. value_of (ResidualResidualDenseBlock_forward
            (ResidualResidualDenseBlock 1 1 ex_rdb_params ex_zero_rdb_params ex_rdb_params)
            0 [ex_input]) = Inr y
        \<and> spec_rrdb (ResidualResidualDenseBlock 1 1 ex_rdb_params ex_zero_rdb_params ex_rdb_params)
            ([ex_input] ! 0) = Inr y)"
proof -
  have h1: "(0::nat) < length [ex_input]" by simp
  have h2: "tensor_wf ([ex_input] ! 0)" by (simp add: ex_input_wf)
  have h3: "dimC ([ex_input] ! 0) = 1" by (simp add: ex_input_wf)
  have h4: "(0::nat) < 1" by simp
  from rrdb_forward_is_scaled_stack[OF h1 h2 h3 h4 ex_rdb_params_ok ex_zero_rdb_params_ok
      ex_rdb_params_ok] h1 h2 h3 ex_rdb_params_ok ex_zero_rdb_params_ok
  show ?thesis by simp
qed

text \<open>
  C3.  The specification states that a \<open>ResidualDenseBlock\<close> whose weights and biases
  are all zero returns its input, for every input.  It does not when the input holds an
  infinity: the product of a zero weight and \<open>\<infinity>\<close> is NaN, NaN reaches \<open>out_5\<close>, and the
  block returns NaN where the input is \<open>\<infinity>\<close>.
\<close>

theorem rdb_zero_weights_nan_on_infinity:
  "rdb_params_ok 1 1 ex_zero_rdb_params \<and> rdb_params_zero ex_zero_rdb_params \<and>
   tensor_wf ex_inf_input \<and> dimC ex_inf_input = 1 \<and>
   value_of (ResidualDenseBlock_forward (ResidualDenseBlock 1 1 ex_zero_rdb_params) 0
               [ex_inf_input]) = Inr [[[[NaN]]]] \<and>
   value_of (ResidualDenseBlock_forward (ResidualDenseBlock 1 1 ex_zero_rdb_params) 0
               [ex_inf_input]) \<noteq> Inr ex_inf_input"
proof -
  have "rdb_value (ResidualDenseBlock 1 1 ex_zero_rdb_params) ex_inf_input = Inr [[[[NaN]]]]"
    by code_simp
  with value_of_outcome[OF rdb_outcome[of 0 "[ex_inf_input]"]]
  have "value_of (ResidualDenseBlock_forward (ResidualDenseBlock 1 1 ex_zero_rdb_params) 0
               [ex_inf_input]) = Inr [[[[NaN]]]]"
    by simp
  moreover have "tensor_wf ex_inf_input" "dimC ex_inf_input = 1"
    by (simp_all add: ex_inf_input_def tensor_wf_def has_shape_def dimN_def dimC_def dimH_def
        dimW_def)
  ultimately show ?thesis
    using ex_zero_rdb_params_ok ex_zero_rdb_params_zero by (simp add: ex_inf_input_def)
qed

text \<open>
  C3, as the code has it.  When every weight and every bias of a \<open>ResidualDenseBlock\<close> is
  zero, its forward function returns its input for every input of the configured channel
  count whose elements are all finite.
\<close>

theorem rdb_zero_weights_identity:
  assumes "x < length s" "tensor_wf (s ! x)" "dimC (s ! x) = channels" "0 < growth_channels"
    "rdb_params_ok channels growth_channels ws" "rdb_params_zero ws" "tensor_finite (s ! x)"
  shows "value_of (ResidualDenseBlock_forward (ResidualDenseBlock channels growth_channels ws) x s)
           = Inr (s ! x)"
proof -
  from assms(2,3) have sh: "shaped (dimN (s ! x)) channels (dimH (s ! x)) (dimW (s ! x)) (s ! x)"
    by (rule wf_shaped)
  from rdb_value_zero[OF assms(4) sh assms(5,6,7)] value_of_outcome[OF rdb_outcome[OF assms(1)]]
  show ?thesis by simp
qed

theorem rdb_zero_weights_identity_witness:
  "(0::nat) < length [ex_input] \<and> tensor_wf ([ex_input] ! 0) \<and> dimC ([ex_input] ! 0) = 1 \<and>
   (0::nat) < 1 \<and> rdb_params_ok 1 1 ex_zero_rdb_params \<and> rdb_params_zero ex_zero_rdb_params \<and>
   tensor_finite ([ex_input] ! 0) \<and>
   value_of (ResidualDenseBlock_forward (ResidualDenseBlock 1 1 ex_zero_rdb_params) 0 [ex_input])
     = Inr ([ex_input] ! 0)"
proof -
  have h1: "(0::nat) < length [ex_input]" by simp
  have h2: "tensor_wf ([ex_input] ! 0)" by (simp add: ex_input_wf)
  have h3: "dimC ([ex_input] ! 0) = 1" by (simp add: ex_input_wf)
  have h4: "(0::nat) < 1" by simp
  have h5: "tensor_finite ([ex_input] ! 0)" by (simp add: ex_input_finite)
  from rdb_zero_weights_identity[OF h1 h2 h3 h4 ex_zero_rdb_params_ok ex_zero_rdb_params_zero h5]
    h1 h2 h3 h5 ex_zero_rdb_params_ok ex_zero_rdb_params_zero
  show ?thesis by simp
qed

text \<open>
  C4.  The specification states that a \<open>ResidualResidualDenseBlock\<close> whose parameters
  are all zero returns its input.  It does not: each inner block returns \<open>x\<close>, and the
  outer residual adds \<open>0.2 * x\<close> to \<open>x\<close>.  On the example input the result is
  \<open>1.2 * x\<close>, which differs from \<open>x\<close>.
\<close>

theorem rrdb_zero_weights_not_identity:
  "rdb_params_ok 1 1 ex_zero_rdb_params \<and> rdb_params_zero ex_zero_rdb_params \<and>
   tensor_wf ex_input \<and> dimC ex_input = 1 \<and>
   value_of (ResidualResidualDenseBlock_forward
      (ResidualResidualDenseBlock 1 1 ex_zero_rdb_params ex_zero_rdb_params ex_zero_rdb_params)
      0 [ex_input]) = Inr [[[[6 / 5, - (12 / 5)], [18 / 5, 24 / 5]]]] \<and>
   value_of (ResidualResidualDenseBlock_forward
      (ResidualResidualDenseBlock 1 1 ex_zero_rdb_params ex_zero_rdb_params ex_zero_rdb_params)
      0 [ex_input]) \<noteq> Inr ex_input"
proof -
  have sh: "shaped 1 1 2 2 ([ex_input] ! 0)"
    by (simp add: ex_input_def shaped_def has_shape_def)
  have fin: "tensor_finite ([ex_input] ! 0)" by (simp add: ex_input_finite)
  have "value_of (ResidualResidualDenseBlock_forward
      (ResidualResidualDenseBlock 1 1 ex_zero_rdb_params ex_zero_rdb_params ex_zero_rdb_params)
      0 [ex_input]) = Inr (map_tensor (\<lambda>v. v * 0.2 + v) ([ex_input] ! 0))"
    using rrdb_value_zero[OF _ sh ex_zero_rdb_params_ok ex_zero_rdb_params_ok
        ex_zero_rdb_params_ok ex_zero_rdb_params_zero ex_zero_rdb_params_zero
        ex_zero_rdb_params_zero fin]
      value_of_outcome[OF rrdb_outcome[of 0 "[ex_input]"]]
    by simp
  then show ?thesis
    using ex_zero_rdb_params_ok ex_zero_rdb_params_zero ex_input_wf
    by (simp add: map_tensor_def ex_input_def elem_eval)
qed

text \<open>
  C4, as the code has it.  With every weight and bias zero, the forward function of
  \<open>ResidualResidualDenseBlock\<close> returns \<open>x + 0.2 * x\<close> elementwise, for every input of
  the configured channel count whose elements are all finite.
\<close>

theorem rrdb_zero_weights_scales:
  assumes "x < length s" "tensor_wf (s ! x)" "dimC (s ! x) = channels" "0 < growth_channels"
    "rdb_params_ok channels growth_channels ws1" "rdb_params_ok channels growth_channels ws2"
    "rdb_params_ok channels growth_channels ws3"
    "rdb_params_zero ws1" "rdb_params_zero ws2" "rdb_params_zero ws3"
    "tensor_finite (s ! x)"
  shows "value_of (ResidualResidualDenseBlock_forward
            (ResidualResidualDenseBlock channels growth_channels ws1 ws2 ws3) x s)
           = Inr (map_tensor (\<lambda>v. v + 0.2 * v) (s ! x))"
proof -
  from assms(2,3) have sh: "shaped (dimN (s ! x)) channels (dimH (s ! x)) (dimW (s ! x)) (s ! x)"
    by (rule wf_shaped)
  have "(\<lambda>v::elem. v * 0.2 + v) = (\<lambda>v. v + 0.2 * v)"
    by (rule ext) (simp add: add.commute elem_mult_commute)
  with rrdb_value_zero[OF assms(4) sh assms(5-11)] value_of_outcome[OF rrdb_outcome[OF assms(1)]]
  show ?thesis by simp
qed

theorem rrdb_zero_weights_scales_witness:
  "(0::nat) < length [ex_input] \<and> tensor_wf ([ex_input] ! 0) \<and> dimC ([ex_input] ! 0) = 1 \<and>
   (0::nat) < 1 \<and> rdb_params_ok 1 1 ex_zero_rdb_params \<and> rdb_params_zero ex_zero_rdb_params \<and>
   tensor_finite ([ex_input] ! 0) \<and>
   value_of (ResidualResidualDenseBlock_forward
      (ResidualResidualDenseBlock 1 1 ex_zero_rdb_params ex_zero_rdb_params ex_zero_rdb_params)
      0 [ex_input]) = Inr (map_tensor (\<lambda>v. v + 0.2 * v) ([ex_input] ! 0))"
proof -
  have h1: "(0::nat) < length [ex_input]" by simp
  have h2: "tensor_wf ([ex_input] ! 0)" by (simp add: ex_input_wf)
  have h3: "dimC ([ex_input] ! 0) = 1" by (simp add: ex_input_wf)
  have h4: "(0::nat) < 1" by simp
  have h5: "tensor_finite ([ex_input] ! 0)" by (simp add: ex_input_finite)
  from rrdb_zero_weights_scales[OF h1 h2 h3 h4 ex_zero_rdb_params_ok ex_zero_rdb_params_ok
      ex_zero_rdb_params_ok ex_zero_rdb_params_zero ex_zero_rdb_params_zero
      ex_zero_rdb_params_zero h5]
    h1 h2 h3 h5 ex_zero_rdb_params_ok ex_zero_rdb_params_zero
  show ?thesis by simp
qed

text \<open>
  C5.  For every valid configuration, every parameter set of the declared shapes and every
  input of shape \<open>(N, channels, H, W)\<close>, the forward function of \<open>ResidualDenseBlock\<close>
  returns a tensor of the same shape; every convolution has stride 1 and padding
  \<open>(kernel_size - 1) / 2\<close>, and the fifth convolution has \<open>channels\<close> output channels.
\<close>

theorem rdb_forward_preserves_shape:
  assumes "x < length s" "tensor_wf (s ! x)" "dimC (s ! x) = channels" "0 < growth_channels"
    "rdb_params_ok channels growth_channels ws"
  shows "(\<exists>y. value_of (ResidualDenseBlock_forward
                  (ResidualDenseBlock channels growth_channels ws) x s) = Inr y \<and>
              tensor_wf y \<and> dimN y = dimN (s ! x) \<and> dimC y = channels \<and>
              dimH y = dimH (s ! x) \<and> dimW y = dimW (s ! x)) \<and>
         list_all (\<lambda>cv. stride cv = 1 \<and> 2 * padding cv + 1 = kernel_size cv)
           (let b = ResidualDenseBlock channels growth_channels ws
            in [rdb_conv_1 b, rdb_conv_2 b, rdb_conv_3 b, rdb_conv_4 b, rdb_conv_5 b]) \<and>
         out_channels (rdb_conv_5 (ResidualDenseBlock channels growth_channels ws)) = channels"
proof -
  from assms(2,3) have sh: "shaped (dimN (s ! x)) channels (dimH (s ! x)) (dimW (s ! x)) (s ! x)"
    by (rule wf_shaped)
  from rdb_value_shaped[OF assms(4) sh, of ws] obtain y where
    y: "rdb_value (ResidualDenseBlock channels growth_channels ws) (s ! x) = Inr y"
      "shaped (dimN (s ! x)) channels (dimH (s ! x)) (dimW (s ! x)) y" by blast
  from y(1) value_of_outcome[OF rdb_outcome[OF assms(1)]]
  have "value_of (ResidualDenseBlock_forward
          (ResidualDenseBlock channels growth_channels ws) x s) = Inr y" by simp
  moreover note shaped_wf[OF y(2)] shaped_dims[OF y(2)]
  moreover have "list_all (\<lambda>cv. stride cv = 1 \<and> 2 * padding cv + 1 = kernel_size cv)
           (let b = ResidualDenseBlock channels growth_channels ws
            in [rdb_conv_1 b, rdb_conv_2 b, rdb_conv_3 b, rdb_conv_4 b, rdb_conv_5 b])"
    "out_channels (rdb_conv_5 (ResidualDenseBlock channels growth_channels ws)) = channels"
    by (cases ws; simp add: ResidualDenseBlock_def Conv2d_def)+
  ultimately show ?thesis by blast
qed

theorem rdb_forward_preserves_shape_witness:
  "(0::nat) < length [ex_input] \<and> tensor_wf ([ex_input] ! 0) \<and> dimC ([ex_input] ! 0) = 1 \<and>
   (0::nat) < 1 \<and> rdb_params_ok 1 1 ex_rdb_params \<and>
   (\<exists>y. value_of (ResidualDenseBlock_forward (ResidualDenseBlock 1 1 ex_rdb_params) 0 [ex_input])
           = Inr y \<and>
        tensor_wf y \<and> dimN y = dimN ([ex_input] ! 0) \<and> dimC y = 1 \<and>
        dimH y = dimH ([ex_input] ! 0) \<and> dimW y = dimW ([ex_input] ! 0))"
proof -
  have h1: "(0::nat) < length [ex_input]" by simp
  have h2: "tensor_wf ([ex_input] ! 0)" by (simp add: ex_input_wf)
  have h3: "dimC ([ex_input] ! 0) = 1" by (simp add: ex_input_wf)
  have h4: "(0::nat) < 1" by simp
  from rdb_forward_preserves_shape[OF h1 h2 h3 h4 ex_rdb_params_ok] h1 h2 h3 ex_rdb_params_ok
  show ?thesis by simp
qed

text \<open>
  C6.  The forward function of \<open>ResidualFeatureDistillationBlock\<close> computes the pipeline
  of the specification: three stages with a distilled branch (1x1 convolution,
  LeakyReLU 0.05) and a remaining branch (3x3 convolution added to the input of the
  stage, LeakyReLU 0.05), a fourth 3x3 convolution with LeakyReLU 0.05, the 1x1 fusion
  convolution over \<open>concat(d1, d2, d3, r4)\<close>, and the attention gate applied once, last, to
  the fused tensor.
\<close>

theorem rfdb_forward_is_distillation_pipeline:
  assumes "x < length s" "tensor_wf (s ! x)" "dimC (s ! x) = channels" "2 \<le> channels"
    "rfdb_params_ok channels ws"
  shows "value_of (ResidualFeatureDistillationBlock_forward
                     (ResidualFeatureDistillationBlock channels ws gate) x s)
           = spec_rfdb (ResidualFeatureDistillationBlock channels ws gate) (s ! x) \<and>
         (\<exists>fused. tensor_wf fused \<and> dimN fused = dimN (s ! x) \<and> dimC fused = channels \<and>
            dimH fused = dimH (s ! x) \<and> dimW fused = dimW (s ! x) \<and>
            value_of (ResidualFeatureDistillationBlock_forward
                       (ResidualFeatureDistillationBlock channels ws gate) x s) = gate fused)"
proof -
  obtain w1d w1r w2d w2r w3d w3r w4 w5 where ws: "ws = (w1d, w1r, w2d, w2r, w3d, w3r, w4, w5)"
    by (cases ws) auto
  from assms(2,3) have sh: "shaped (dimN (s ! x)) channels (dimH (s ! x)) (dimW (s ! x)) (s ! x)"
    by (rule wf_shaped)
  from assms(4) have dc: "0 < channels div 2" by simp
  let ?b = "ResidualFeatureDistillationBlock channels ws gate"
  from rfdb_refines[OF dc sh, of w1d w1r w2d w2r w3d w3r w4 w5 gate]
  obtain k where k:
    "shaped (dimN (s ! x)) channels (dimH (s ! x)) (dimW (s ! x))
       (conv_out (Conv2d (channels div 2 * 4) channels 1 1 0 w5) k)"
    "rfdb_value ?b (s ! x) = gate (conv_out (Conv2d (channels div 2 * 4) channels 1 1 0 w5) k)"
    "spec_rfdb ?b (s ! x) = gate (conv_out (Conv2d (channels div 2 * 4) channels 1 1 0 w5) k)"
    unfolding ws by metis
  note v = value_of_outcome[OF rfdb_outcome[OF assms(1), of ?b]]
  from v k(2,3) shaped_wf[OF k(1)] shaped_dims[OF k(1)] show ?thesis by auto
qed

theorem rfdb_forward_is_distillation_pipeline_witness:
  "(0::nat) < length [ex_input2] \<and> tensor_wf ([ex_input2] ! 0) \<and> dimC ([ex_input2] ! 0) = 2 \<and>
   (2::nat) \<le> 2 \<and> rfdb_params_ok 2 ex_rfdb_params \<and>
   value_of (ResidualFeatureDistillationBlock_forward
              (ResidualFeatureDistillationBlock 2 ex_rfdb_params Inr) 0 [ex_input2])
     = spec_rfdb (ResidualFeatureDistillationBlock 2 ex_rfdb_params Inr) ([ex_input2] ! 0)"
proof -
  have h1: "(0::nat) < length [ex_input2]" by simp
  have h2: "tensor_wf ([ex_input2] ! 0)" by (simp add: ex_input2_wf)
  have h3: "dimC ([ex_input2] ! 0) = 2" by (simp add: ex_input2_wf)
  have h4: "(2::nat) \<le> 2" by simp
  from rfdb_forward_is_distillation_pipeline[OF h1 h2 h3 h4 ex_rfdb_params_ok, of Inr]
    h1 h2 h3 ex_rfdb_params_ok
  show ?thesis by simp
qed

text \<open>
  C7.  For \<open>channels = 64\<close> the block has \<open>distilled_channels = 32\<close>, its fusion
  convolution declares 128 input channels, and for every input of 64 channels the
  concatenation that feeds it has \<open>4 * 32 = 128\<close> channels.
\<close>

theorem rfdb_concat_has_128_channels:
  assumes "x < length s" "tensor_wf (s ! x)" "dimC (s ! x) = 64" "rfdb_params_ok 64 ws"
  shows "distilled_channels (ResidualFeatureDistillationBlock 64 ws gate) = 32 \<and>
         in_channels (rfdb_conv_5 (ResidualFeatureDistillationBlock 64 ws gate)) = 128 \<and>
         (\<exists>p s'. rfdb_distil (ResidualFeatureDistillationBlock 64 ws gate) x s = (Inr p, s') \<and>
                  p < length s' \<and> dimC (s' ! p) = 4 * 32)"
proof -
  obtain w1d w1r w2d w2r w3d w3r w4 w5 where ws: "ws = (w1d, w1r, w2d, w2r, w3d, w3r, w4, w5)"
    by (cases ws) auto
  from assms(2,3) have sh: "shaped (dimN (s ! x)) 64 (dimH (s ! x)) (dimW (s ! x)) (s ! x)"
    by (rule wf_shaped)
  have dc: "(0::nat) < 64 div 2" by simp
  let ?b = "ResidualFeatureDistillationBlock 64 ws gate"
  from rfdb_refines[OF dc sh, of w1d w1r w2d w2r w3d w3r w4 w5 gate]
  obtain k where k: "shaped (dimN (s ! x)) (64 div 2 * 4) (dimH (s ! x)) (dimW (s ! x)) k"
    "rfdb_distil_value ?b (s ! x) = Inr k"
    unfolding ws by metis
  from rfdb_distil_outcome[OF assms(1), of ?b] k(2)
  obtain p s' where p: "rfdb_distil ?b x s = (Inr p, s')" "p < length s'" "s' ! p = k"
    using outcome_Inr by metis
  from shaped_dims(2)[OF k(1)] have "dimC k = 128" by simp
  moreover have "distilled_channels ?b = 32" "in_channels (rfdb_conv_5 ?b) = 128"
    by (simp_all add: ws ResidualFeatureDistillationBlock_def Conv2d_def Let_def)
  ultimately show ?thesis using p by simp
qed

theorem rfdb_concat_has_128_channels_witness:
  "(0::nat) < length [ex_input64] \<and> tensor_wf ([ex_input64] ! 0) \<and> dimC ([ex_input64] ! 0) = 64 \<and>
   rfdb_params_ok 64 ex_rfdb_params64 \<and>
   distilled_channels (ResidualFeatureDistillationBlock 64 ex_rfdb_params64 Inr) = 32 \<and>
   in_channels (rfdb_conv_5 (ResidualFeatureDistillationBlock 64 ex_rfdb_params64 Inr)) = 128 \<and>
   (\<exists>p s'. rfdb_distil (ResidualFeatureDistillationBlock 64 ex_rfdb_params64 Inr) 0 [ex_input64]
              = (Inr p, s') \<and> p < length s' \<and> dimC (s' ! p) = 4 * 32)"
proof -
  have h1: "(0::nat) < length [ex_input64]" by simp
  have h2: "tensor_wf ([ex_input64] ! 0)" by (simp add: ex_input64_wf)
  have h3: "dimC ([ex_input64] ! 0) = 64" by (simp add: ex_input64_wf)
  from rfdb_concat_has_128_channels[OF h1 h2 h3 ex_rfdb_params64_ok, of Inr]
    h1 h2 h3 ex_rfdb_params64_ok
  show ?thesis by simp
qed

text \<open>
  C8.  The specification states that the elementwise sum fails whenever the batch size,
  height or width of its operands differ.  \<^verbatim>\<open>torch.add\<close> broadcasts instead when one of
  the two sizes is 1: a batch of one tensor is added to each element of a batch of two.
\<close>

theorem add_broadcasts_on_batch_mismatch:
  "tensor_wf [[[[1]]]] \<and> tensor_wf [[[[1]]], [[[2]]]] \<and>
   dimN [[[[1]]]] \<noteq> dimN [[[[1]]], [[[2]]]] \<and>
   torch_add [[[[1]]]] [[[[1]]], [[[2]]]] = Inr [[[[2]]], [[[3]]]]"
  by (simp add: tensor_wf_def has_shape_def dimN_def dimC_def dimH_def dimW_def torch_add_def
      broadcastable_def expand_tensor_def expand_def add_same_def elem_eval)

text \<open>
  C8, as the code has it.  For operands whose batch size, height or width differ,
  \<^verbatim>\<open>torch.cat\<close> along the channels always fails.  \<^verbatim>\<open>torch.add\<close> fails when some
  dimension has two different sizes neither of which is 1.  Otherwise, when in every
  dimension the two sizes are equal or one of them is 1, it returns the broadcast sum: a
  tensor whose size in every dimension is the larger of the two, so nothing is truncated,
  and whose element at each index is the sum of the elements of the operands there, an
  operand of size 1 in a dimension being read at index 0.  The failure is the
  \<^verbatim>\<open>RuntimeError\<close> of the library.
\<close>

theorem shape_mismatch_rejection:
  assumes "tensor_wf a" "tensor_wf b"
    "dimN a \<noteq> dimN b \<or> dimH a \<noteq> dimH b \<or> dimW a \<noteq> dimW b"
  shows "cat_channels [a, b] = Inl RuntimeError \<and>
         (if \<forall>d \<in> {(dimN a, dimN b), (dimC a, dimC b), (dimH a, dimH b), (dimW a, dimW b)}.
               fst d = snd d \<or> fst d = 1 \<or> snd d = 1
          then \<exists>r. torch_add a b = Inr r \<and> tensor_wf r \<and>
                 dimN r = max (dimN a) (dimN b) \<and> dimC r = max (dimC a) (dimC b) \<and>
                 dimH r = max (dimH a) (dimH b) \<and> dimW r = max (dimW a) (dimW b) \<and>
                 (\<forall>n < max (dimN a) (dimN b). \<forall>c < max (dimC a) (dimC b).
                  \<forall>y < max (dimH a) (dimH b). \<forall>x < max (dimW a) (dimW b).
                    r ! n ! c ! y ! x =
                      a ! bidx (dimN a) n ! bidx (dimC a) c ! bidx (dimH a) y ! bidx (dimW a) x +
                      b ! bidx (dimN b) n ! bidx (dimC b) c ! bidx (dimH b) y ! bidx (dimW b) x)
          else torch_add a b = Inl RuntimeError)"
proof (rule conjI)
  show "cat_channels [a, b] = Inl RuntimeError"
    using assms(3) by (auto simp: cat_channels_def)
next
  let ?bc = "broadcastable (dimN a) (dimN b) \<and> broadcastable (dimC a) (dimC b) \<and>
             broadcastable (dimH a) (dimH b) \<and> broadcastable (dimW a) (dimW b)"
  have cond: "(\<forall>d \<in> {(dimN a, dimN b), (dimC a, dimC b), (dimH a, dimH b), (dimW a, dimW b)}.
               fst d = snd d \<or> fst d = 1 \<or> snd d = 1) = ?bc"
    by (simp add: broadcastable_def)
  show "if \<forall>d \<in> {(dimN a, dimN b), (dimC a, dimC b), (dimH a, dimH b), (dimW a, dimW b)}.
               fst d = snd d \<or> fst d = 1 \<or> snd d = 1
          then \<exists>r. torch_add a b = Inr r \<and> tensor_wf r \<and>
                 dimN r = max (dimN a) (dimN b) \<and> dimC r = max (dimC a) (dimC b) \<and>
                 dimH r = max (dimH a) (dimH b) \<and> dimW r = max (dimW a) (dimW b) \<and>
                 (\<forall>n < max (dimN a) (dimN b). \<forall>c < max (dimC a) (dimC b).
                  \<forall>y < max (dimH a) (dimH b). \<forall>x < max (dimW a) (dimW b).
                    r ! n ! c ! y ! x =
                      a ! bidx (dimN a) n ! bidx (dimC a) c ! bidx (dimH a) y ! bidx (dimW a) x +
                      b ! bidx (dimN b) n ! bidx (dimC b) c ! bidx (dimH b) y ! bidx (dimW b) x)
          else torch_add a b = Inl RuntimeError"
  proof (cases ?bc)
    case True
    from torch_add_broadcast_value[OF assms(1,2)] True obtain r where
      r: "torch_add a b = Inr r"
      and v: "\<forall>n < max (dimN a) (dimN b). \<forall>c < max (dimC a) (dimC b).
                  \<forall>y < max (dimH a) (dimH b). \<forall>x < max (dimW a) (dimW b).
                    r ! n ! c ! y ! x =
                      a ! bidx (dimN a) n ! bidx (dimC a) c ! bidx (dimH a) y ! bidx (dimW a) x +
                      b ! bidx (dimN b) n ! bidx (dimC b) c ! bidx (dimH b) y ! bidx (dimW b) x"
      by blast
    note sh = torch_add_broadcast_shape[OF assms(1,2) r]
    have ex: "\<exists>r. torch_add a b = Inr r \<and> tensor_wf r \<and>
                 dimN r = max (dimN a) (dimN b) \<and> dimC r = max (dimC a) (dimC b) \<and>
                 dimH r = max (dimH a) (dimH b) \<and> dimW r = max (dimW a) (dimW b) \<and>
                 (\<forall>n < max (dimN a) (dimN b). \<forall>c < max (dimC a) (dimC b).
                  \<forall>y < max (dimH a) (dimH b). \<forall>x < max (dimW a) (dimW b).
                    r ! n ! c ! y ! x =
                      a ! bidx (dimN a) n ! bidx (dimC a) c ! bidx (dimH a) y ! bidx (dimW a) x +
                      b ! bidx (dimN b) n ! bidx (dimC b) c ! bidx (dimH b) y ! bidx (dimW b) x)"
      by (rule exI[of _ r]) (use r v sh in simp)
    from True have c: "(\<forall>d \<in> {(dimN a, dimN b), (dimC a, dimC b), (dimH a, dimH b), (dimW a, dimW b)}.
               fst d = snd d \<or> fst d = 1 \<or> snd d = 1)"
      using cond by blast
    show ?thesis unfolding if_P[OF c] by (rule ex)
  next
    case False
    then have fail: "torch_add a b = Inl RuntimeError"
      unfolding torch_add_def by (rule if_not_P)
    from False have c: "\<not> (\<forall>d \<in> {(dimN a, dimN b), (dimC a, dimC b), (dimH a, dimH b), (dimW a, dimW b)}.
               fst d = snd d \<or> fst d = 1 \<or> snd d = 1)"
      using cond by blast
    show ?thesis unfolding if_not_P[OF c] by (rule fail)
  qed
qed

theorem shape_mismatch_rejection_witness:
  "tensor_wf [[[[1]]]] \<and> tensor_wf [[[[1]]], [[[2]]]] \<and>
   dimN [[[[1::elem]]]] \<noteq> dimN [[[[1::elem]]], [[[2]]]] \<and>
   cat_channels [[[[[1]]]], [[[[1]]], [[[2]]]]] = Inl RuntimeError \<and>
   (\<exists>r. torch_add [[[[1]]]] [[[[1]]], [[[2]]]] = Inr r \<and> dimN r = 2 \<and>
        r ! 1 ! 0 ! 0 ! 0 = [[[[1]]]] ! 0 ! 0 ! 0 ! 0 + [[[[1]]], [[[2]]]] ! 1 ! 0 ! 0 ! 0) \<and>
   tensor_wf [[[[1]]], [[[2]]], [[[3]]]] \<and>
   dimN [[[[1::elem]]], [[[2]]]] \<noteq> dimN [[[[1::elem]]], [[[2]]], [[[3]]]] \<and>
   cat_channels [[[[[1]]], [[[2]]]], [[[[1]]], [[[2]]], [[[3]]]]] = Inl RuntimeError \<and>
   torch_add [[[[1]]], [[[2]]]] [[[[1]]], [[[2]]], [[[3]]]] = Inl RuntimeError"
proof -
  let ?a = "[[[[1::elem]]]]" and ?b = "[[[[1]]], [[[2::elem]]]]"
  let ?c = "[[[[1]]], [[[2]]], [[[3::elem]]]]"
  have wf: "tensor_wf ?a" "tensor_wf ?b" "tensor_wf ?c"
    by (simp_all add: tensor_wf_def has_shape_def dimN_def dimC_def dimH_def dimW_def)
  have dims: "dimN ?a = 1" "dimC ?a = 1" "dimH ?a = 1" "dimW ?a = 1"
    "dimN ?b = 2" "dimC ?b = 1" "dimH ?b = 1" "dimW ?b = 1"
    "dimN ?c = 3" "dimC ?c = 1" "dimH ?c = 1" "dimW ?c = 1"
    by (simp_all add: dimN_def dimC_def dimH_def dimW_def)
  have m1: "dimN ?a \<noteq> dimN ?b \<or> dimH ?a \<noteq> dimH ?b \<or> dimW ?a \<noteq> dimW ?b"
    and m2: "dimN ?b \<noteq> dimN ?c \<or> dimH ?b \<noteq> dimH ?c \<or> dimW ?b \<noteq> dimW ?c"
    by (simp_all add: dims)
  from shape_mismatch_rejection[OF wf(1,2) m1]
  have 1: "cat_channels [?a, ?b] = Inl RuntimeError"
    and "\<exists>r. torch_add ?a ?b = Inr r \<and> dimN r = 2 \<and>
        (\<forall>n < 2. \<forall>c < 1. \<forall>y < 1. \<forall>x < 1. r ! n ! c ! y ! x =
            ?a ! bidx 1 n ! bidx 1 c ! bidx 1 y ! bidx 1 x +
            ?b ! bidx 2 n ! bidx 1 c ! bidx 1 y ! bidx 1 x)"
    by (auto simp: dims)
  then obtain r where r: "torch_add ?a ?b = Inr r" "dimN r = 2"
    "r ! 1 ! 0 ! 0 ! 0 = ?a ! bidx 1 1 ! bidx 1 0 ! bidx 1 0 ! bidx 1 0 +
            ?b ! bidx 2 1 ! bidx 1 0 ! bidx 1 0 ! bidx 1 0"
    by force
  then have 2: "\<exists>r. torch_add ?a ?b = Inr r \<and> dimN r = 2 \<and>
        r ! 1 ! 0 ! 0 ! 0 = ?a ! 0 ! 0 ! 0 ! 0 + ?b ! 1 ! 0 ! 0 ! 0"
    by (intro exI[of _ r]) (simp add: bidx_def)
  from shape_mismatch_rejection[OF wf(2,3) m2]
  have 3: "cat_channels [?b, ?c] = Inl RuntimeError" "torch_add ?b ?c = Inl RuntimeError"
    by (simp_all add: dims)
  from wf dims 1 2 3 show ?thesis by simp
qed

text \<open>
  C9.  For tensors that agree in batch size, height and width, the concatenation holds
  the channels of the first argument, in order, followed by those of the second; and
  there are two different tensors whose concatenations in the two orders differ.
\<close>

theorem cat_channel_order:
  assumes "tensor_wf a" "tensor_wf b" "dimN a = dimN b" "dimH a = dimH b" "dimW a = dimW b"
  shows "(\<exists>r. cat_channels [a, b] = Inr r \<and> tensor_wf r \<and> dimN r = dimN a \<and>
              dimC r = dimC a + dimC b \<and> dimH r = dimH a \<and> dimW r = dimW a \<and>
              (\<forall>n < dimN a. \<forall>c < dimC a + dimC b.
                  r ! n ! c = (if c < dimC a then a ! n ! c else b ! n ! (c - dimC a)))) \<and>
         (\<exists>a' b'. a' \<noteq> b' \<and> tensor_wf a' \<and> tensor_wf b' \<and> dimN a' = dimN b' \<and>
              dimH a' = dimH b' \<and> dimW a' = dimW b' \<and>
              cat_channels [a', b'] \<noteq> cat_channels [b', a'])"
proof
  let ?n = "dimN a" and ?h = "dimH a" and ?w = "dimW a"
  from assms have sa: "shaped ?n (dimC a) ?h ?w a" and sb: "shaped ?n (dimC b) ?h ?w b"
    by (simp_all add: tensor_wf_shaped)
  have l: "list_all2 (\<lambda>c t. shaped ?n c ?h ?w t) [dimC a, dimC b] [a, b]"
    using sa sb by simp
  let ?r = "map (\<lambda>i. concat (map (\<lambda>u. u ! i) [a, b])) [0..<?n]"
  have r: "cat_channels [a, b] = Inr ?r" by (rule cat_channels_ok[OF l]) simp
  have "shaped ?n (sum_list [dimC a, dimC b]) ?h ?w ?r" by (rule cat_channels_shaped[OF l]) simp
  then have sr: "shaped ?n (dimC a + dimC b) ?h ?w ?r" by simp
  have lay: "?r ! n ! c = (if c < dimC a then a ! n ! c else b ! n ! (c - dimC a))"
    if "n < ?n" for n c
  proof -
    from sa that have "length (a ! n) = dimC a"
      using has_shape_nth(1)[of ?n "dimC a" ?h ?w a n] by (simp add: shaped_def)
    with that show ?thesis by (simp add: nth_append)
  qed
  have lay': "\<forall>n < dimN a. \<forall>c < dimC a + dimC b.
      ?r ! n ! c = (if c < dimC a then a ! n ! c else b ! n ! (c - dimC a))"
    using lay by blast
  note d = shaped_dims[OF sr]
  have "cat_channels [a, b] = Inr ?r \<and> tensor_wf ?r \<and> dimN ?r = dimN a \<and>
              dimC ?r = dimC a + dimC b \<and> dimH ?r = dimH a \<and> dimW ?r = dimW a \<and>
              (\<forall>n < dimN a. \<forall>c < dimC a + dimC b.
                  ?r ! n ! c = (if c < dimC a then a ! n ! c else b ! n ! (c - dimC a)))"
    by (intro conjI r shaped_wf[OF sr] d lay')
  then show "\<exists>r. cat_channels [a, b] = Inr r \<and> tensor_wf r \<and> dimN r = dimN a \<and>
              dimC r = dimC a + dimC b \<and> dimH r = dimH a \<and> dimW r = dimW a \<and>
              (\<forall>n < dimN a. \<forall>c < dimC a + dimC b.
                  r ! n ! c = (if c < dimC a then a ! n ! c else b ! n ! (c - dimC a)))"
    by (rule exI[of _ ?r])
next
  have "[[[[1::elem]]]] \<noteq> [[[[2]]]] \<and> tensor_wf [[[[1]]]] \<and> tensor_wf [[[[2]]]] \<and>
      dimN [[[[1::elem]]]] = dimN [[[[2::elem]]]] \<and> dimH [[[[1::elem]]]] = dimH [[[[2::elem]]]] \<and>
      dimW [[[[1::elem]]]] = dimW [[[[2::elem]]]] \<and>
      cat_channels [[[[[1]]]], [[[[2]]]]] \<noteq> cat_channels [[[[[2]]]], [[[[1]]]]]"
    by (simp add: tensor_wf_def has_shape_def dimN_def dimC_def dimH_def dimW_def cat_channels_def
        elem_eval)
  then show "\<exists>a' b'. a' \<noteq> b' \<and> tensor_wf a' \<and> tensor_wf b' \<and> dimN a' = dimN b' \<and>
              dimH a' = dimH b' \<and> dimW a' = dimW b' \<and>
              cat_channels [a', b'] \<noteq> cat_channels [b', a']"
    by (intro exI[of _ "[[[[1]]]]"] exI[of _ "[[[[2]]]]"])
qed

theorem cat_channel_order_witness:
  "tensor_wf [[[[1]]]] \<and> tensor_wf [[[[2]], [[3]]]] \<and>
   dimN [[[[1::elem]]]] = dimN [[[[2::elem]], [[3]]]] \<and>
   dimH [[[[1::elem]]]] = dimH [[[[2::elem]], [[3]]]] \<and>
   dimW [[[[1::elem]]]] = dimW [[[[2::elem]], [[3]]]] \<and>
   (\<exists>r. cat_channels [[[[[1]]]], [[[[2]], [[3]]]]] = Inr r \<and>
        dimC r = dimC [[[[1::elem]]]] + dimC [[[[2::elem]], [[3]]]])"
proof -
  let ?a = "[[[[1::elem]]]]" and ?b = "[[[[2::elem]], [[3]]]]"
  have h1: "tensor_wf ?a" and h2: "tensor_wf ?b"
    by (simp_all add: tensor_wf_def has_shape_def dimN_def dimC_def dimH_def dimW_def)
  have h3: "dimN ?a = dimN ?b" and h4: "dimH ?a = dimH ?b" and h5: "dimW ?a = dimW ?b"
    by (simp_all add: dimN_def dimH_def dimW_def)
  from cat_channel_order[OF h1 h2 h3 h4 h5]
  obtain r where "cat_channels [?a, ?b] = Inr r" "dimC r = dimC ?a + dimC ?b"
    by (elim conjE exE)
  then have "\<exists>r. cat_channels [?a, ?b] = Inr r \<and> dimC r = dimC ?a + dimC ?b"
    by (intro exI conjI)
  with h1 h2 h3 h4 h5 show ?thesis by (intro conjI)
qed

text \<open>
  C10.  A run of the forward function of any of the three blocks leaves every tensor
  object that existed before the call, the input among them, as it was, whether the run
  returns or raises: the in-place activations only overwrite objects the run itself has
  allocated.
\<close>

theorem forward_leaves_caller_tensors_unchanged:
  assumes "x < length s" "i < length s"
  shows "snd (ResidualDenseBlock_forward b1 x s) ! i = s ! i \<and>
         snd (ResidualResidualDenseBlock_forward b2 x s) ! i = s ! i \<and>
         snd (ResidualFeatureDistillationBlock_forward b3 x s) ! i = s ! i"
  using outcome_frame[OF rdb_outcome[OF assms(1)] assms(2)]
    outcome_frame[OF rrdb_outcome[OF assms(1)] assms(2)]
    outcome_frame[OF rfdb_outcome[OF assms(1)] assms(2)]
  by blast

theorem forward_leaves_caller_tensors_unchanged_witness:
  "(0::nat) < length [ex_input] \<and>
   snd (ResidualDenseBlock_forward (ResidualDenseBlock 1 1 ex_rdb_params) 0 [ex_input]) ! 0
     = [ex_input] ! 0 \<and>
   snd (ResidualResidualDenseBlock_forward
          (ResidualResidualDenseBlock 1 1 ex_rdb_params ex_rdb_params ex_rdb_params) 0 [ex_input]) ! 0
     = [ex_input] ! 0 \<and>
   (0::nat) < length [ex_input2] \<and>
   snd (ResidualFeatureDistillationBlock_forward
          (ResidualFeatureDistillationBlock 2 ex_rfdb_params Inr) 0 [ex_input2]) ! 0
     = [ex_input2] ! 0"
proof -
  have h1: "(0::nat) < length [ex_input]" and h2: "(0::nat) < length [ex_input2]" by simp_all
  from forward_leaves_caller_tensors_unchanged[OF h1 h1,
      of "ResidualDenseBlock 1 1 ex_rdb_params"
         "ResidualResidualDenseBlock 1 1 ex_rdb_params ex_rdb_params ex_rdb_params"
         "ResidualFeatureDistillationBlock 2 ex_rfdb_params Inr"]
    forward_leaves_caller_tensors_unchanged[OF h2 h2,
      of "ResidualDenseBlock 1 1 ex_rdb_params"
         "ResidualResidualDenseBlock 1 1 ex_rdb_params ex_rdb_params ex_rdb_params"
         "ResidualFeatureDistillationBlock 2 ex_rfdb_params Inr"]
    h1 h2
  show ?thesis by blast
qed

end
